theory Spec2Isabelle
  imports Complex_Main "HOL-Library.Word" "HOL-Library.Log_Nat"
begin

unbundle bit_operations_syntax

section \<open>Machine types and platform constants\<close>

text \<open>
  The firmware is C for a 32-bit target: \<open>uint8_t\<close> and \<open>uint16_t\<close> are unsigned words,
  \<open>int\<close> (the type every narrower operand is promoted to before arithmetic) and
  \<open>esp_err_t\<close> are 32 bits wide.  A \<open>const char *\<close> argument is modelled by the
  characters that precede its terminating NUL.
\<close>

type_synonym uint8_t = "8 word"
type_synonym uint16_t = "16 word"
type_synonym c_int = "32 word"
type_synonym esp_err_t = "32 word"

text \<open>Values of the platform headers (\<open>esp_err.h\<close>, \<open>driver/i2c.h\<close>).\<close>

definition ESP_OK :: esp_err_t where
  "ESP_OK = 0"

definition I2C_MASTER_WRITE :: c_int where
  "I2C_MASTER_WRITE = 0"

definition I2C_MASTER_READ :: c_int where
  "I2C_MASTER_READ = 1"

section \<open>The sensor driver: \<open>mlx90614_Handler.h\<close> and \<open>mlx90614_Handler.c\<close>\<close>

definition MLX90614_ADDR :: c_int where
  "MLX90614_ADDR = 0x5A"

definition MLX90614_REG_ADDR :: c_int where
  "MLX90614_REG_ADDR = 0x07"

definition CRC8_POLYNOMIAL :: c_int where
  "CRC8_POLYNOMIAL = 0x07"

definition RETURN_NUM_MLX90614_READSUCCESSFULLY :: uint8_t where
  "RETURN_NUM_MLX90614_READSUCCESSFULLY = 0"

definition RETURN_NUM_MLX90614_READFAIL :: uint8_t where
  "RETURN_NUM_MLX90614_READFAIL = 1"

subsection \<open>\<open>CalculateCrc8\<close>\<close>

text \<open>
  A buffer is the list of bytes that the pointer addresses.  Reading a cell outside it
  is undefined in C; the model returns \<open>None\<close> there.
\<close>

definition read_byte :: "uint8_t list \<Rightarrow> nat \<Rightarrow> uint8_t option" where
  "read_byte buf i = (if i < length buf then Some (buf ! i) else None)"

text \<open>
  The body of the inner loop.  \<open>crc\<close> is promoted to \<open>int\<close> for \<open>&\<close>, \<open><<\<close> and \<open>^\<close>,
  and the assignment back to \<open>crc\<close> keeps the low 8 bits.
\<close>

definition crc_bit_step :: "uint8_t \<Rightarrow> uint8_t" where
  "crc_bit_step crc =
     (if (ucast crc :: c_int) AND 0x80 \<noteq> 0
      then ucast (push_bit 1 (ucast crc :: c_int) XOR CRC8_POLYNOMIAL)
      else ucast (push_bit 1 (ucast crc :: c_int)))"

text \<open>\<open>for (uint8_t bitIndex = 0; bitIndex < 8; bitIndex++)\<close>, entered at \<open>bitIndex\<close>.\<close>

function crc_bit_loop :: "uint8_t \<Rightarrow> uint8_t \<Rightarrow> uint8_t" where
  "crc_bit_loop bitIndex crc =
     (if bitIndex < 8 then crc_bit_loop (bitIndex + 1) (crc_bit_step crc) else crc)"
  by pat_completeness auto
termination
  apply (relation "measure (\<lambda>(bitIndex, crc). 8 - unat bitIndex)")
   apply simp
  apply (simp add: word_less_nat_alt unat_word_ariths)
  done

text \<open>
  \<open>for (uint8_t byteIndex = 0; byteIndex < dataLength; byteIndex++)\<close>, entered at
  \<open>byteIndex\<close> with accumulator \<open>crc\<close>.
\<close>

function crc_byte_loop ::
  "uint8_t list \<Rightarrow> uint8_t \<Rightarrow> uint8_t \<Rightarrow> uint8_t \<Rightarrow> uint8_t option" where
  "crc_byte_loop pecbuffer dataLength byteIndex crc =
     (if byteIndex < dataLength
      then (case read_byte pecbuffer (unat byteIndex) of
              None \<Rightarrow> None
            | Some b \<Rightarrow>
                crc_byte_loop pecbuffer dataLength (byteIndex + 1)
                  (crc_bit_loop 0 (crc XOR b)))
      else Some crc)"
  by pat_completeness auto
termination
  apply (relation
      "measure (\<lambda>(pecbuffer, dataLength, byteIndex, crc). unat dataLength - unat byteIndex)")
   apply simp
  apply (simp add: word_less_nat_alt)
  apply unat_arith
  done

definition CalculateCrc8 :: "uint8_t list \<Rightarrow> uint8_t \<Rightarrow> uint8_t option" where
  "CalculateCrc8 pecbuffer dataLength = crc_byte_loop pecbuffer dataLength 0 0x00"

subsection \<open>The CRC-8 reference, written from the specification\<close>

text \<open>
  One round in 8-bit unsigned arithmetic: if the high bit of the accumulator is set,
  shift left one and exclusive-or with the polynomial \<open>0x07\<close>, else shift left one.
\<close>

definition Crc8_round :: "uint8_t \<Rightarrow> uint8_t" where
  "Crc8_round acc = (if bit acc 7 then push_bit 1 acc XOR 0x07 else push_bit 1 acc)"

text \<open>
  Accumulator initialised to 0; each input byte is exclusive-ored into the accumulator,
  then 8 rounds are performed.
\<close>

definition Crc8 :: "uint8_t list \<Rightarrow> uint8_t" where
  "Crc8 bytes = foldl (\<lambda>acc b. (Crc8_round ^^ 8) (acc XOR b)) 0x00 bytes"

subsection \<open>\<open>MLX90614ReadTemp\<close>\<close>

text \<open>
  The command link that the function builds, and what the bus driver hands back:
  the status of \<open>i2c_master_cmd_begin\<close> and the contents of the locals \<open>lsb\<close>,
  \<open>msb\<close> and \<open>pec\<close> once it has returned.
\<close>

datatype i2c_ack_type_t = I2C_MASTER_ACK | I2C_MASTER_NACK

datatype i2c_cmd =
    i2c_master_start
  | i2c_master_write_byte uint8_t bool
  | i2c_master_read_byte i2c_ack_type_t
  | i2c_master_stop

record i2c_transfer =
  ret :: esp_err_t
  lsb :: uint8_t
  msb :: uint8_t
  pec :: uint8_t

text \<open>
  The results are C \<open>float\<close>s.  The type of floats and its operations (rounding a
  decimal literal, converting an \<open>int\<close>, \<open>*\<close>, \<open>-\<close>, \<open>+\<close>) are parameters of the
  function; the arithmetic of the target is given further down.
\<close>

record 'f float_ops =
  fl_lit :: "real \<Rightarrow> 'f"
  fl_of_int :: "int \<Rightarrow> 'f"
  fl_mul :: "'f \<Rightarrow> 'f \<Rightarrow> 'f"
  fl_sub :: "'f \<Rightarrow> 'f \<Rightarrow> 'f"
  fl_add :: "'f \<Rightarrow> 'f \<Rightarrow> 'f"

definition SCALE_FACTOR :: "'f float_ops \<Rightarrow> 'f" where
  "SCALE_FACTOR fp = fl_lit fp 0.02"

definition KELVIN_OFFSET :: "'f float_ops \<Rightarrow> 'f" where
  "KELVIN_OFFSET fp = fl_lit fp 273.15"

definition FAHRENHEIT_OFFSET :: "'f float_ops \<Rightarrow> 'f" where
  "FAHRENHEIT_OFFSET fp = fl_lit fp 32.0"

definition FAHRENHEIT_MULTIPLIER :: "'f float_ops \<Rightarrow> 'f" where
  "FAHRENHEIT_MULTIPLIER fp = fl_lit fp 1.8"

text \<open>The two \<open>float\<close> objects that the out-parameters point to.\<close>

record 'f outputs =
  tempcelsius :: 'f
  tempfahrenheit :: 'f

definition read_temp_cmd :: "i2c_cmd list" where
  "read_temp_cmd =
     [i2c_master_start,
      i2c_master_write_byte (ucast (push_bit 1 MLX90614_ADDR OR I2C_MASTER_WRITE)) True,
      i2c_master_write_byte (ucast MLX90614_REG_ADDR) True,
      i2c_master_start,
      i2c_master_write_byte (ucast (push_bit 1 MLX90614_ADDR OR I2C_MASTER_READ)) True,
      i2c_master_read_byte I2C_MASTER_ACK,
      i2c_master_read_byte I2C_MASTER_ACK,
      i2c_master_read_byte I2C_MASTER_NACK,
      i2c_master_stop]"

text \<open>
  \<open>uint8_t pecbuffer[6]\<close> after the five assignments; \<open>stack\<close> is what the cells held
  before (the sixth cell is never assigned).
\<close>

definition pec_frame :: "uint8_t \<Rightarrow> uint8_t \<Rightarrow> uint8_t \<Rightarrow> uint8_t list" where
  "pec_frame stack l m =
     (replicate 6 stack)
       [0 := ucast (push_bit 1 MLX90614_ADDR OR I2C_MASTER_WRITE),
        1 := ucast MLX90614_REG_ADDR,
        2 := ucast (push_bit 1 MLX90614_ADDR OR I2C_MASTER_READ),
        3 := l,
        4 := m]"

text \<open>\<open>uint16_t rawtemp = (msb << 8) | lsb\<close>, computed in \<open>int\<close> and truncated.\<close>

definition rawtemp_of :: "uint8_t \<Rightarrow> uint8_t \<Rightarrow> uint16_t" where
  "rawtemp_of l m = ucast (push_bit 8 (ucast m :: c_int) OR (ucast l :: c_int))"

text \<open>
  \<open>bus\<close> is \<open>i2c_master_cmd_begin\<close> on the command link, \<open>stack\<close> the prior content of
  \<open>pecbuffer\<close>, \<open>out\<close> the out-parameters' targets before the call.  The result is
  \<open>None\<close> where the C program would read outside \<open>pecbuffer\<close>.
\<close>

definition MLX90614ReadTemp ::
  "'f float_ops \<Rightarrow> (i2c_cmd list \<Rightarrow> i2c_transfer) \<Rightarrow> uint8_t \<Rightarrow> 'f outputs \<Rightarrow>
   (uint8_t \<times> 'f outputs) option" where
  "MLX90614ReadTemp fp bus stack out =
     (let xfer = bus read_temp_cmd in
      if ret xfer \<noteq> ESP_OK then Some (RETURN_NUM_MLX90614_READFAIL, out)
      else
        (case CalculateCrc8 (pec_frame stack (lsb xfer) (msb xfer)) 5 of
           None \<Rightarrow> None
         | Some calcpec \<Rightarrow>
             if calcpec \<noteq> pec xfer then Some (RETURN_NUM_MLX90614_READFAIL, out)
             else
               (let rawtemp = rawtemp_of (lsb xfer) (msb xfer);
                    kelvin = fl_mul fp (fl_of_int fp (uint rawtemp)) (SCALE_FACTOR fp)
                in Some (RETURN_NUM_MLX90614_READSUCCESSFULLY,
                     out\<lparr>tempcelsius := fl_sub fp kelvin (KELVIN_OFFSET fp),
                         tempfahrenheit :=
                           fl_add fp
                             (fl_mul fp (FAHRENHEIT_MULTIPLIER fp)
                                (fl_sub fp kelvin (KELVIN_OFFSET fp)))
                             (FAHRENHEIT_OFFSET fp)\<rparr>))))"

section \<open>The storage driver: \<open>SDCardHandler.h\<close> and \<open>SDCardHandler.c\<close>\<close>

definition MOUNT_POINT :: string where
  "MOUNT_POINT = ''/sdcard''"

definition SDTAG :: string where
  "SDTAG = ''SD_CARD''"

definition RETURN_NUM_SDCARD_MOUNTSUCCESSFULLY :: uint8_t where
  "RETURN_NUM_SDCARD_MOUNTSUCCESSFULLY = 0"

definition RETURN_NUM_SDCARD_MOUNTFAIL :: uint8_t where
  "RETURN_NUM_SDCARD_MOUNTFAIL = 1"

definition RETURN_NUM_SDCARD_WRITESUCCESSFULL :: uint8_t where
  "RETURN_NUM_SDCARD_WRITESUCCESSFULL = 2"

definition RETURN_NUM_SDCARD_WRITEFAIL :: uint8_t where
  "RETURN_NUM_SDCARD_WRITEFAIL = 3"

definition RETURN_NUM_SDCARD_READSUCCESSFULL :: uint8_t where
  "RETURN_NUM_SDCARD_READSUCCESSFULL = 4"

definition RETURN_NUM_SDCARD_READFAIL :: uint8_t where
  "RETURN_NUM_SDCARD_READFAIL = 5"

definition RETURN_NUM_SDCARD_APPENDSUCCESSFULLY :: uint8_t where
  "RETURN_NUM_SDCARD_APPENDSUCCESSFULLY = 6"

definition RETURN_NUM_SDCARD_APPENDFAIL :: uint8_t where
  "RETURN_NUM_SDCARD_APPENDFAIL = 7"

subsection \<open>The platform: bus, volume and C streams\<close>

text \<open>
  What the program does to its surroundings, in order: the bus and volume calls with the
  status each returned, the text sent to standard output, each stream it opens for
  writing (path and mode) and each text it writes to such a stream (path and text).
\<close>

datatype event =
    SpiBusInitialize esp_err_t
  | SdspiMount esp_err_t
  | SpiBusFree esp_err_t
  | SdcardUnmount esp_err_t
  | CardPrintInfo
  | Printf string
  | Fopen string string
  | Fprintf string string



text \<open>The texts sent to standard output among the events.\<close>

fun printed :: "event list \<Rightarrow> string list" where
  "printed [] = []"
| "printed (Printf text # evs) = text # printed evs"
| "printed (ev # evs) = printed evs"

text \<open>
  The state the driver works on.  \<open>spi_claimed\<close>: the SPI host is initialised;
  \<open>mounted\<close>: the volume is attached at the mount point; \<open>card_ptr\<close>: the global
  \<open>sdmmc_card_t *card\<close>; \<open>files\<close>: the files of the volume, by path;
  \<open>writable\<close>: the paths that the volume lets a program create or open for writing
  (it may be write-protected, or have no directory entry left); \<open>room\<close>: the number of
  bytes that the volume still stores, what is written beyond it being lost (a full card,
  a failing medium); \<open>trace\<close>: the events so far.
\<close>

record sd_state =
  spi_claimed :: bool
  mounted :: bool
  card_ptr :: "nat option"
  files :: "string \<rightharpoonup> string"
  writable :: "string \<Rightarrow> bool"
  room :: nat
  trace :: "event list"

text \<open>
  The status that each platform call returns is an input of the model, and so is the
  card handle that a successful mount stores.
\<close>

record platform =
  spi_bus_initialize_ret :: esp_err_t
  sdspi_mount_ret :: esp_err_t
  sdspi_mount_card :: nat
  spi_bus_free_ret :: esp_err_t
  sdcard_unmount_ret :: esp_err_t

text \<open>A call that returns \<open>ESP_OK\<close> has its effect; a call that fails has none.\<close>

definition spi_bus_initialize :: "platform \<Rightarrow> sd_state \<Rightarrow> esp_err_t \<times> sd_state" where
  "spi_bus_initialize pf s =
     (let r = spi_bus_initialize_ret pf
      in (r, s\<lparr>spi_claimed := (r = ESP_OK \<or> spi_claimed s),
                trace := trace s @ [SpiBusInitialize r]\<rparr>))"

definition esp_vfs_fat_sdspi_mount :: "platform \<Rightarrow> sd_state \<Rightarrow> esp_err_t \<times> sd_state" where
  "esp_vfs_fat_sdspi_mount pf s =
     (let r = sdspi_mount_ret pf
      in (r, s\<lparr>mounted := (r = ESP_OK \<or> mounted s),
                card_ptr := (if r = ESP_OK then Some (sdspi_mount_card pf) else card_ptr s),
                trace := trace s @ [SdspiMount r]\<rparr>))"

definition spi_bus_free :: "platform \<Rightarrow> sd_state \<Rightarrow> esp_err_t \<times> sd_state" where
  "spi_bus_free pf s =
     (let r = spi_bus_free_ret pf
      in (r, s\<lparr>spi_claimed := (r \<noteq> ESP_OK \<and> spi_claimed s),
                trace := trace s @ [SpiBusFree r]\<rparr>))"

definition esp_vfs_fat_sdcard_unmount :: "platform \<Rightarrow> sd_state \<Rightarrow> esp_err_t \<times> sd_state" where
  "esp_vfs_fat_sdcard_unmount pf s =
     (let r = sdcard_unmount_ret pf
      in (r, s\<lparr>mounted := (r \<noteq> ESP_OK \<and> mounted s),
                trace := trace s @ [SdcardUnmount r]\<rparr>))"

definition sdmmc_card_print_info :: "sd_state \<Rightarrow> sd_state" where
  "sdmmc_card_print_info s = s\<lparr>trace := trace s @ [CardPrintInfo]\<rparr>"

definition printf :: "string \<Rightarrow> sd_state \<Rightarrow> sd_state" where
  "printf text s = s\<lparr>trace := trace s @ [Printf text]\<rparr>"

definition newline :: char where
  "newline = CHR 0x0A"

definition NUL :: char where
  "NUL = CHR 0x00"

definition EOF :: c_int where
  "EOF = - 1"

text \<open>
  An open stream: its path, its mode, what is still to be read from it, and what has
  been written to it and waits in its buffer.  The C program reaches it through one
  pointer; the model hands the changed stream on.
\<close>

record FILE =
  f_path :: string
  f_mode :: string
  f_unread :: string
  f_pending :: string

text \<open>
  \<open>fopen\<close> of the C library, for the three modes the driver uses.  Nothing can be opened
  while the volume is not mounted.  \<open>"r"\<close> opens an existing file only; \<open>"w"\<close> creates
  the file or truncates it to length zero; \<open>"a"\<close> creates the file when it does not exist
  and keeps its content when it does.  \<open>None\<close> is the null pointer.
\<close>

definition fopen :: "string \<Rightarrow> string \<Rightarrow> sd_state \<Rightarrow> (FILE \<times> sd_state) option" where
  "fopen path md s =
     (if \<not> mounted s then None
      else if md = ''r'' then
        (case files s path of
           None \<Rightarrow> None
         | Some content \<Rightarrow>
             Some (\<lparr>f_path = path, f_mode = md, f_unread = content, f_pending = []\<rparr>, s))
      else if md = ''w'' then
        (if writable s path
         then Some (\<lparr>f_path = path, f_mode = md, f_unread = [], f_pending = []\<rparr>,
                    s\<lparr>files := (files s)(path \<mapsto> []),
                      trace := trace s @ [Fopen path md]\<rparr>)
         else None)
      else if md = ''a'' then
        (if writable s path
         then Some (\<lparr>f_path = path, f_mode = md, f_unread = [], f_pending = []\<rparr>,
                    s\<lparr>files := (files s)(path \<mapsto>
                        (case files s path of None \<Rightarrow> [] | Some content \<Rightarrow> content)),
                      trace := trace s @ [Fopen path md]\<rparr>)
         else None)
      else None)"

text \<open>
  \<open>fprintf\<close> with the format already expanded to \<open>text\<close>.  The stream is buffered: the
  text joins the buffer and the call returns the number of characters.  On a stream
  opened for reading it fails.
\<close>

definition fprintf :: "FILE \<Rightarrow> string \<Rightarrow> sd_state \<Rightarrow> c_int \<times> FILE \<times> sd_state" where
  "fprintf file text s =
     (if f_mode file = ''r'' then (EOF, file, s)
      else (of_nat (length text), file\<lparr>f_pending := f_pending file @ text\<rparr>,
            s\<lparr>trace := trace s @ [Fprintf (f_path file) text]\<rparr>))"

text \<open>
  \<open>fclose\<close> writes the buffer to the end of the file.  The volume stores as much of it
  as it has room for; \<open>fclose\<close> returns 0 when that is all of it and \<open>EOF\<close> otherwise.
  With an empty buffer nothing is written.
\<close>

definition fclose :: "FILE \<Rightarrow> sd_state \<Rightarrow> c_int \<times> sd_state" where
  "fclose file s =
     (if f_pending file = [] then (0, s)
      else (case files s (f_path file) of
              None \<Rightarrow> (EOF, s)
            | Some content \<Rightarrow>
                (if length (f_pending file) \<le> room s then 0 else EOF,
                 s\<lparr>files := (files s)(f_path file \<mapsto> content @ take (room s) (f_pending file)),
                   room := room s - length (take (room s) (f_pending file))\<rparr>)))"

text \<open>
  \<open>fgets\<close> reads at most \<open>n - 1\<close> characters and stops after a newline; it returns
  the null pointer when nothing is left.  \<open>fgets_chars n cs\<close> splits off the line.
\<close>

fun fgets_chars :: "nat \<Rightarrow> string \<Rightarrow> string \<times> string" where
  "fgets_chars 0 cs = ([], cs)"
| "fgets_chars (Suc n) [] = ([], [])"
| "fgets_chars (Suc n) (c # cs) =
     (if c = newline then ([c], cs)
      else (case fgets_chars n cs of (line, rest) \<Rightarrow> (c # line, rest)))"

definition fgets :: "nat \<Rightarrow> FILE \<Rightarrow> (string \<times> FILE) option" where
  "fgets n file =
     (if f_unread file = [] then None
      else (case fgets_chars (n - 1) (f_unread file) of
              (line, rest) \<Rightarrow> Some (line, file\<lparr>f_unread := rest\<rparr>)))"

subsection \<open>The file operations\<close>

text \<open>None of them looks at what \<open>fprintf\<close> or \<open>fclose\<close> returns.\<close>

definition FileExists :: "string \<Rightarrow> sd_state \<Rightarrow> bool \<times> sd_state" where
  "FileExists StringPath s =
     (case fopen StringPath ''r'' s of
        Some (file, s') \<Rightarrow> (True, snd (fclose file s'))
      | None \<Rightarrow> (False, s))"

definition CreateFile :: "string \<Rightarrow> sd_state \<Rightarrow> bool \<times> sd_state" where
  "CreateFile StringPath s =
     (case fopen StringPath ''w'' s of
        None \<Rightarrow> (False, s)
      | Some (PtrFile, s') \<Rightarrow> (True, snd (fclose PtrFile s')))"

definition WriteFile :: "string \<Rightarrow> sd_state \<Rightarrow> uint8_t \<times> sd_state" where
  "WriteFile StringPath s =
     (case fopen StringPath ''w'' s of
        None \<Rightarrow> (RETURN_NUM_SDCARD_WRITEFAIL, s)
      | Some (PtrFile, s') \<Rightarrow>
          (let (n1, PtrFile1, s1) = fprintf PtrFile (''sectr!'' @ [newline]) s';
               (n2, PtrFile2, s2) = fprintf PtrFile1 (''CONSOLE.'' @ [newline]) s1
           in (RETURN_NUM_SDCARD_WRITESUCCESSFULL, snd (fclose PtrFile2 s2))))"

text \<open>
  \<open>while (fgets(line, sizeof(line), PtrFile)) printf("%s", line);\<close> with
  \<open>char line[128]\<close>.  \<open>%s\<close> prints the characters before the first NUL.
\<close>

function ReadFile_loop :: "FILE \<Rightarrow> sd_state \<Rightarrow> sd_state" where
  "ReadFile_loop PtrFile s =
     (case fgets 128 PtrFile of
        None \<Rightarrow> s
      | Some (line, PtrFile') \<Rightarrow>
          ReadFile_loop PtrFile' (printf (takeWhile (\<lambda>c. c \<noteq> NUL) line) s))"
  by pat_completeness auto
termination
proof (relation "measure (\<lambda>(PtrFile, s). length (f_unread PtrFile))")
  show "wf (measure (\<lambda>(PtrFile, s). length (f_unread PtrFile)))"
    by simp
next
  fix PtrFile :: FILE and s :: sd_state and x2 line PtrFile'
  assume got: "fgets 128 PtrFile = Some x2" and x2: "(line, PtrFile') = x2"
  have shrink: "cs \<noteq> [] \<Longrightarrow> length (snd (fgets_chars (Suc n) cs)) < length cs" for n cs
  proof (induction n arbitrary: cs)
    case 0
    then show ?case by (cases cs) simp_all
  next
    case (Suc n)
    then obtain c cs' where cs: "cs = c # cs'" by (cases cs) auto
    show ?case
    proof (cases "cs' = []")
      case True
      with cs show ?thesis by simp
    next
      case False
      from Suc.IH [OF False] cs show ?thesis
        by (simp add: split_beta)
    qed
  qed
  from got x2 have ne: "f_unread PtrFile \<noteq> []"
    and rest: "f_unread PtrFile' = snd (fgets_chars 127 (f_unread PtrFile))"
    by (auto simp add: fgets_def split: if_splits prod.splits)
  from shrink [OF ne, of 126] rest
  have "length (f_unread PtrFile') < length (f_unread PtrFile)"
    by simp
  then show "((PtrFile', printf (takeWhile (\<lambda>c. c \<noteq> NUL) line) s), PtrFile, s)
      \<in> measure (\<lambda>(PtrFile, s). length (f_unread PtrFile))"
    by simp
qed

definition ReadFile :: "string \<Rightarrow> sd_state \<Rightarrow> uint8_t \<times> sd_state" where
  "ReadFile StringPath s =
     (case fopen StringPath ''r'' s of
        None \<Rightarrow> (RETURN_NUM_SDCARD_READFAIL, s)
      | Some (PtrFile, s') \<Rightarrow>
          (RETURN_NUM_SDCARD_READSUCCESSFULL,
           snd (fclose PtrFile (ReadFile_loop PtrFile s'))))"

definition AppendFile :: "string \<Rightarrow> string \<Rightarrow> sd_state \<Rightarrow> uint8_t \<times> sd_state" where
  "AppendFile StringPath Data s =
     (case fopen StringPath ''a'' s of
        None \<Rightarrow> (RETURN_NUM_SDCARD_APPENDFAIL, s)
      | Some (PtrFile, s') \<Rightarrow>
          (let (n, PtrFile1, s1) = fprintf PtrFile (Data @ [newline]) s'
           in (RETURN_NUM_SDCARD_APPENDSUCCESSFULLY, snd (fclose PtrFile1 s1))))"

definition LogToSDCard :: "string \<Rightarrow> string \<Rightarrow> sd_state \<Rightarrow> uint8_t \<times> sd_state" where
  "LogToSDCard tag message s =
     (let filePath = MOUNT_POINT @ ''/SDCARD.txt'';
          (exists, s1) = FileExists filePath s;
          (created, s2) = (if \<not> exists then CreateFile filePath s1 else (True, s1))
      in if \<not> created then (RETURN_NUM_SDCARD_APPENDFAIL, s2)
         else
           (case fopen filePath ''a'' s2 of
              None \<Rightarrow> (RETURN_NUM_SDCARD_APPENDFAIL, s2)
            | Some (PtrFile, s3) \<Rightarrow>
                (let (n, PtrFile1, s4) =
                       fprintf PtrFile (tag @ '': '' @ message @ [newline]) s3
                 in (RETURN_NUM_SDCARD_APPENDSUCCESSFULLY, snd (fclose PtrFile1 s4)))))"

subsection \<open>Mounting and unmounting\<close>

definition InitSdCard :: "platform \<Rightarrow> sd_state \<Rightarrow> uint8_t \<times> sd_state" where
  "InitSdCard pf s =
     (let s1 = snd (LogToSDCard SDTAG ''Initializing SD card...'' s);
          (ret, s2) = spi_bus_initialize pf s1
      in if ret \<noteq> ESP_OK
         then (ucast ret, snd (LogToSDCard SDTAG ''Failed to initialize SPI bus'' s2))
         else
           (let (ret', s3) = esp_vfs_fat_sdspi_mount pf s2
            in if ret' \<noteq> ESP_OK
               then (RETURN_NUM_SDCARD_MOUNTFAIL, snd (spi_bus_free pf s3))
               else (RETURN_NUM_SDCARD_MOUNTSUCCESSFULLY, sdmmc_card_print_info s3)))"

definition SdCardUnmount :: "platform \<Rightarrow> sd_state \<Rightarrow> sd_state" where
  "SdCardUnmount pf s =
     (let (status, s1) = esp_vfs_fat_sdcard_unmount pf s
      in if status = ESP_OK
         then
           (let (status', s2) = spi_bus_free pf s1
            in if status' = ESP_OK
               then printf ''SD Card unmounted successfully.'' s2
               else printf ''SPI bus release failed after unmount.'' s2)
         else printf ''SD Card unmount failed.'' s1)"

subsection \<open>Concrete states\<close>

text \<open>
  After power-on: nothing claimed, nothing mounted, a card without files and with room
  for 4096 bytes.
\<close>

definition power_on :: sd_state where
  "power_on =
     \<lparr>spi_claimed = False, mounted = False, card_ptr = None, files = Map.empty,
      writable = (\<lambda>path. True), room = 4096, trace = []\<rparr>"

text \<open>After a successful mount of that card.\<close>

definition card_mounted :: sd_state where
  "card_mounted = power_on\<lparr>spi_claimed := True, mounted := True, card_ptr := Some 0\<rparr>"

text \<open>The same with a card that accepts new files and stores no more data.\<close>

definition card_full :: sd_state where
  "card_full = card_mounted\<lparr>room := 0\<rparr>"

text \<open>
  An instance of the float operations for evaluating the sensor model on concrete inputs:
  exact real arithmetic.  It is not the arithmetic of the target.
\<close>

definition exact_arith :: "real float_ops" where
  "exact_arith =
     \<lparr>fl_lit = (\<lambda>x. x), fl_of_int = real_of_int, fl_mul = (*), fl_sub = (-), fl_add = (+)\<rparr>"

text \<open>
  The arithmetic of the target: IEEE 754 single precision (binary32), every literal,
  conversion and operation rounded to the nearest value with a 24-bit significand, ties
  to the even one.  Each operation rounds on its own (no fused multiply-add).  The
  values of this driver lie far inside the normal range: overflow and subnormal numbers
  are not modelled.  A float is the real number it stands for.
\<close>

text \<open>The \<open>e\<close> with \<open>2^e \<le> |x| < 2^(e+1)\<close>, for \<open>x \<noteq> 0\<close>.\<close>

definition exponent_of :: "real \<Rightarrow> int" where
  "exponent_of x =
     (if 1 \<le> \<bar>x\<bar> then bitlen \<lfloor>\<bar>x\<bar>\<rfloor> - 1 else - bitlen (\<lceil>1 / \<bar>x\<bar>\<rceil> - 1))"

definition pow2 :: "int \<Rightarrow> real" where
  "pow2 e = (if 0 \<le> e then 2 ^ nat e else 1 / 2 ^ nat (- e))"

definition round_half_even :: "real \<Rightarrow> int" where
  "round_half_even y =
     (let f = \<lfloor>y\<rfloor>; d = y - of_int f
      in if d < 1 / 2 then f else if 1 / 2 < d then f + 1 else if even f then f else f + 1)"

definition round_binary32 :: "real \<Rightarrow> real" where
  "round_binary32 x =
     (if x = 0 then 0
      else (let q = pow2 (exponent_of x - 23)
            in of_int (round_half_even (x / q)) * q))"

definition binary32 :: "real float_ops" where
  "binary32 =
     \<lparr>fl_lit = round_binary32,
      fl_of_int = (\<lambda>i. round_binary32 (of_int i)),
      fl_mul = (\<lambda>a b. round_binary32 (a * b)),
      fl_sub = (\<lambda>a b. round_binary32 (a - b)),
      fl_add = (\<lambda>a b. round_binary32 (a + b))\<rparr>"

text \<open>A transfer that completes with the data bytes \<open>l\<close>, \<open>m\<close> and the PEC byte \<open>p\<close>.\<close>

definition completed_transfer :: "uint8_t \<Rightarrow> uint8_t \<Rightarrow> uint8_t \<Rightarrow> i2c_cmd list \<Rightarrow> i2c_transfer" where
  "completed_transfer l m p cmd = \<lparr>ret = ESP_OK, lsb = l, msb = m, pec = p\<rparr>"

text \<open>
  Platforms for evaluating the driver on concrete inputs: one on which every call
  succeeds, and others on which calls are refused (\<open>0x101\<close> is the platform's
  out-of-memory error, \<open>0x102\<close> its invalid-argument error, \<open>0x103\<close> its invalid-state
  error, \<open>0x107\<close> its timeout).
\<close>

definition platform_ok :: platform where
  "platform_ok =
     \<lparr>spi_bus_initialize_ret = ESP_OK, sdspi_mount_ret = ESP_OK, sdspi_mount_card = 1,
      spi_bus_free_ret = ESP_OK, sdcard_unmount_ret = ESP_OK\<rparr>"

definition bus_refused :: platform where
  "bus_refused = platform_ok\<lparr>spi_bus_initialize_ret := 0x102\<rparr>"


definition unmount_refused :: platform where
  "unmount_refused = platform_ok\<lparr>sdcard_unmount_ret := 0x107\<rparr>"



section \<open>\<open>CalculateCrc8\<close> against the reference\<close>

lemma unat_succ_lt:
  fixes i n :: "'a::len word"
  assumes "i < n"
  shows "unat (i + 1) = Suc (unat i)"
proof -
  have "n \<le> - 1" by simp
  with assms have "i \<noteq> - 1" by auto
  then have "1 + i \<noteq> 0" by (simp add: add_eq_0_iff)
  then have "unat (1 + i) = Suc (unat i)" by (rule unatSuc)
  then show ?thesis by (simp add: add.commute)
qed

text \<open>Promotion to \<open>int\<close> and truncation back leave the 8-bit result unchanged.\<close>

lemma ucast_shift_left_8:
  "(ucast (push_bit 1 (ucast crc :: c_int)) :: uint8_t) = push_bit 1 crc"
  apply (rule bit_word_eqI)
  apply (simp only: bit_simps)
  apply auto
  done

lemma ucast_shift_xor_8:
  "(ucast (push_bit 1 (ucast crc :: c_int) XOR 0x07) :: uint8_t) = push_bit 1 crc XOR 0x07"
  apply (rule bit_word_eqI)
  apply (simp only: bit_simps)
  apply auto
  done

lemma high_bit_test_8: "((ucast (crc::uint8_t) :: c_int) AND 0x80 \<noteq> 0) = bit crc 7"
proof -
  have "(0x80 :: c_int) = 2 ^ 7" by simp
  then have "((ucast crc :: c_int) AND 0x80 = 0) = (\<not> bit (ucast crc :: c_int) 7)"
    by (simp only: and_exp_eq_0_iff_not_bit)
  then show ?thesis by (simp add: bit_ucast_iff)
qed

lemma crc_bit_step_round: "crc_bit_step crc = Crc8_round crc"
  unfolding crc_bit_step_def Crc8_round_def CRC8_POLYNOMIAL_def
  by (simp only: high_bit_test_8 ucast_shift_left_8 ucast_shift_xor_8)

lemma crc_bit_loop_funpow:
  "unat bitIndex \<le> 8 \<Longrightarrow>
   crc_bit_loop bitIndex crc = (Crc8_round ^^ (8 - unat bitIndex)) crc"
proof (induction bitIndex crc rule: crc_bit_loop.induct)
  case (1 bitIndex crc)
  show ?case
  proof (cases "bitIndex < 8")
    case True
    then have suc: "unat (bitIndex + 1) = Suc (unat bitIndex)" by (rule unat_succ_lt)
    from True have lt: "unat bitIndex < 8" by (simp add: word_less_nat_alt)
    with suc have le: "unat (bitIndex + 1) \<le> 8" by simp
    have "crc_bit_loop bitIndex crc = crc_bit_loop (bitIndex + 1) (crc_bit_step crc)"
      using True by (subst crc_bit_loop.simps) simp
    also have "\<dots> = (Crc8_round ^^ (8 - unat (bitIndex + 1))) (crc_bit_step crc)"
      using "1.IH" [OF True le] .
    also have "\<dots> = (Crc8_round ^^ (8 - unat bitIndex)) crc"
    proof -
      from lt have "8 - unat bitIndex = Suc (8 - Suc (unat bitIndex))" by simp
      then show ?thesis
        by (simp only: suc crc_bit_step_round funpow_Suc_right o_apply)
    qed
    finally show ?thesis .
  next
    case False
    then have "8 \<le> unat bitIndex" by (simp add: word_less_nat_alt)
    with "1.prems" have "8 - unat bitIndex = 0" by simp
    moreover have "crc_bit_loop bitIndex crc = crc"
      using False by (subst crc_bit_loop.simps) simp
    ultimately show ?thesis by simp
  qed
qed

lemma crc_bit_loop_rounds: "crc_bit_loop 0 crc = (Crc8_round ^^ 8) crc"
  using crc_bit_loop_funpow [of 0 crc] by simp

lemma crc_byte_loop_foldl:
  "unat byteIndex \<le> unat dataLength \<Longrightarrow> unat dataLength \<le> length pecbuffer \<Longrightarrow>
   crc_byte_loop pecbuffer dataLength byteIndex crc =
     Some (foldl (\<lambda>acc b. (Crc8_round ^^ 8) (acc XOR b)) crc
            (drop (unat byteIndex) (take (unat dataLength) pecbuffer)))"
proof (induction pecbuffer dataLength byteIndex crc rule: crc_byte_loop.induct)
  case (1 pecbuffer dataLength byteIndex crc)
  let ?f = "\<lambda>acc b. (Crc8_round ^^ 8) (acc XOR b)"
  let ?frame = "take (unat dataLength) pecbuffer"
  show ?case
  proof (cases "byteIndex < dataLength")
    case True
    then have suc: "unat (byteIndex + 1) = Suc (unat byteIndex)" by (rule unat_succ_lt)
    from True have lt: "unat byteIndex < unat dataLength" by (simp add: word_less_nat_alt)
    with "1.prems" have inb: "unat byteIndex < length pecbuffer" by simp
    then have rd: "read_byte pecbuffer (unat byteIndex) = Some (pecbuffer ! unat byteIndex)"
      by (simp add: read_byte_def)
    from lt suc have le: "unat (byteIndex + 1) \<le> unat dataLength" by simp
    from lt inb have len: "unat byteIndex < length ?frame" by simp
    have nth: "?frame ! unat byteIndex = pecbuffer ! unat byteIndex"
      using lt by simp
    have dr: "drop (unat byteIndex) ?frame =
        pecbuffer ! unat byteIndex # drop (unat (byteIndex + 1)) ?frame"
      using Cons_nth_drop_Suc [OF len] by (simp only: suc nth)
    have "crc_byte_loop pecbuffer dataLength byteIndex crc =
        crc_byte_loop pecbuffer dataLength (byteIndex + 1)
          (crc_bit_loop 0 (crc XOR pecbuffer ! unat byteIndex))"
      using True rd by (subst crc_byte_loop.simps) simp
    also have "\<dots> = Some (foldl ?f (crc_bit_loop 0 (crc XOR pecbuffer ! unat byteIndex))
        (drop (unat (byteIndex + 1)) ?frame))"
      using "1.IH" [OF True rd le "1.prems"(2)] .
    also have "\<dots> = Some (foldl ?f crc (drop (unat byteIndex) ?frame))"
      by (simp only: dr foldl_Cons crc_bit_loop_rounds)
    finally show ?thesis .
  next
    case False
    then have "unat dataLength \<le> unat byteIndex" by (simp add: word_less_nat_alt)
    then have "drop (unat byteIndex) ?frame = []" by simp
    moreover have "crc_byte_loop pecbuffer dataLength byteIndex crc = Some crc"
      using False by (subst crc_byte_loop.simps) simp
    ultimately show ?thesis by simp
  qed
qed

lemma CalculateCrc8_Crc8:
  "unat dataLength \<le> length pecbuffer \<Longrightarrow>
   CalculateCrc8 pecbuffer dataLength = Some (Crc8 (take (unat dataLength) pecbuffer))"
  using crc_byte_loop_foldl [of 0 dataLength pecbuffer 0]
  by (simp add: CalculateCrc8_def Crc8_def)

lemma CalculateCrc8_zero_frame: "CalculateCrc8 (replicate 5 0x00) 5 = Some 0x00"
  by code_simp

text \<open>
  C1.  For every buffer and every \<open>dataLength\<close> that stays inside it, \<open>CalculateCrc8\<close>
  returns the bit-serial CRC-8 of the first \<open>dataLength\<close> bytes: accumulator 0, each
  byte exclusive-ored in, then 8 rounds of shift-left with the polynomial \<open>0x07\<close> when
  the high bit is set, in 8-bit arithmetic.  So it does for every byte sequence whose
  length fits \<open>dataLength\<close>, and the all-zero 5-byte frame yields \<open>0x00\<close>.
\<close>

theorem CalculateCrc8_bit_serial_reference:
  "(unat dataLength \<le> length pecbuffer \<longrightarrow>
      CalculateCrc8 pecbuffer dataLength = Some (Crc8 (take (unat dataLength) pecbuffer))) \<and>
   (length bytes < 256 \<longrightarrow>
      CalculateCrc8 bytes (of_nat (length bytes)) = Some (Crc8 bytes)) \<and>
   CalculateCrc8 (replicate 5 0x00) 5 = Some 0x00"
proof (intro conjI impI)
  assume "unat dataLength \<le> length pecbuffer"
  then show "CalculateCrc8 pecbuffer dataLength = Some (Crc8 (take (unat dataLength) pecbuffer))"
    by (rule CalculateCrc8_Crc8)
next
  assume len: "length bytes < 256"
  then have "unat (of_nat (length bytes) :: uint8_t) = length bytes"
    by (simp add: unat_of_nat)
  with CalculateCrc8_Crc8 [of "of_nat (length bytes)" bytes]
  show "CalculateCrc8 bytes (of_nat (length bytes)) = Some (Crc8 bytes)"
    by simp
next
  show "CalculateCrc8 (replicate 5 0x00) 5 = Some 0x00"
    by (rule CalculateCrc8_zero_frame)
qed

theorem CalculateCrc8_bit_serial_reference_witness:
  "unat (5 :: uint8_t) \<le> length [0xB4, 0x07, 0xB5, 0x3A, 0x39, 0xFF :: uint8_t] \<and>
   CalculateCrc8 [0xB4, 0x07, 0xB5, 0x3A, 0x39, 0xFF] 5 =
     Some (Crc8 [0xB4, 0x07, 0xB5, 0x3A, 0x39]) \<and>
   length [0x31, 0x32, 0x33 :: uint8_t] < 256 \<and>
   CalculateCrc8 [0x31, 0x32, 0x33] 3 = Some (Crc8 [0x31, 0x32, 0x33])"
  using CalculateCrc8_bit_serial_reference
    [of 5 "[0xB4, 0x07, 0xB5, 0x3A, 0x39, 0xFF]" "[0x31, 0x32, 0x33]"]
  by simp

section \<open>\<open>MLX90614ReadTemp\<close>\<close>

lemma frame_addr_bytes:
  "(ucast (push_bit 1 MLX90614_ADDR OR I2C_MASTER_WRITE) :: uint8_t) = 0xB4"
  "(ucast MLX90614_REG_ADDR :: uint8_t) = 0x07"
  "(ucast (push_bit 1 MLX90614_ADDR OR I2C_MASTER_READ) :: uint8_t) = 0xB5"
  by (simp_all add: MLX90614_ADDR_def I2C_MASTER_WRITE_def I2C_MASTER_READ_def
      MLX90614_REG_ADDR_def)

lemma replicate_6: "replicate 6 x = [x, x, x, x, x, x]"
  by (simp add: numeral_eq_Suc)

lemma pec_frame_cells: "pec_frame stack l m = [0xB4, 0x07, 0xB5, l, m, stack]"
  unfolding pec_frame_def frame_addr_bytes replicate_6
  by (simp add: numeral_eq_Suc)

text \<open>The CRC that the function recomputes is the reference CRC of the five-byte frame.\<close>

lemma CalculateCrc8_pec_frame:
  "CalculateCrc8 (pec_frame stack l m) 5 = Some (Crc8 [0xB4, 0x07, 0xB5, l, m])"
  using CalculateCrc8_Crc8 [of 5 "pec_frame stack l m"]
  by (simp add: pec_frame_cells)

text \<open>
  C2.  When the bus transfer completes (\<open>ESP_OK\<close>) and the CRC-8 of the frame
  \<open>{0xB4, 0x07, 0xB5, lsb, msb}\<close> (write address, register, read address, data low,
  data high) differs from the received PEC byte, the call returns
  \<open>RETURN_NUM_MLX90614_READFAIL\<close> and both outputs are as they were before the call.
\<close>

theorem MLX90614ReadTemp_rejects_pec_mismatch:
  assumes "ret (bus read_temp_cmd) = ESP_OK"
    and "Crc8 [0xB4, 0x07, 0xB5, lsb (bus read_temp_cmd), msb (bus read_temp_cmd)]
          \<noteq> pec (bus read_temp_cmd)"
  shows "MLX90614ReadTemp fp bus stack out = Some (RETURN_NUM_MLX90614_READFAIL, out)"
  using assms by (simp add: MLX90614ReadTemp_def Let_def CalculateCrc8_pec_frame)

lemma Crc8_zero_reading: "Crc8 [0xB4, 0x07, 0xB5, 0x00, 0x00] = 0x06"
  by code_simp

theorem MLX90614ReadTemp_rejects_pec_mismatch_witness:
  "ret (completed_transfer 0x00 0x00 0x07 read_temp_cmd) = ESP_OK \<and>
   Crc8 [0xB4, 0x07, 0xB5, lsb (completed_transfer 0x00 0x00 0x07 read_temp_cmd),
         msb (completed_transfer 0x00 0x00 0x07 read_temp_cmd)]
     \<noteq> pec (completed_transfer 0x00 0x00 0x07 read_temp_cmd) \<and>
   MLX90614ReadTemp exact_arith (completed_transfer 0x00 0x00 0x07) 0xFF
       \<lparr>tempcelsius = 21.5, tempfahrenheit = 70.7\<rparr> =
     Some (RETURN_NUM_MLX90614_READFAIL, \<lparr>tempcelsius = 21.5, tempfahrenheit = 70.7\<rparr>)"
proof -
  have r: "ret (completed_transfer 0x00 0x00 0x07 read_temp_cmd) = ESP_OK"
    by (simp add: completed_transfer_def)
  have c: "Crc8 [0xB4, 0x07, 0xB5, lsb (completed_transfer 0x00 0x00 0x07 read_temp_cmd),
         msb (completed_transfer 0x00 0x00 0x07 read_temp_cmd)]
     \<noteq> pec (completed_transfer 0x00 0x00 0x07 read_temp_cmd)"
    by (simp add: completed_transfer_def Crc8_zero_reading)
  from r c MLX90614ReadTemp_rejects_pec_mismatch
    [where bus = "completed_transfer 0x00 0x00 0x07" and fp = exact_arith and stack = "0xFF"
       and out = "\<lparr>tempcelsius = 21.5, tempfahrenheit = 70.7\<rparr>"]
  show ?thesis
    by simp
qed

text \<open>What the function does when the PEC byte matches; the raw value is little-endian.\<close>

lemma MLX90614ReadTemp_on_match:
  assumes "ret (bus read_temp_cmd) = ESP_OK"
    and "Crc8 [0xB4, 0x07, 0xB5, lsb (bus read_temp_cmd), msb (bus read_temp_cmd)]
          = pec (bus read_temp_cmd)"
  shows "MLX90614ReadTemp fp bus stack out =
    Some (RETURN_NUM_MLX90614_READSUCCESSFULLY,
      out\<lparr>tempcelsius :=
            fl_sub fp
              (fl_mul fp
                 (fl_of_int fp
                    (uint (rawtemp_of (lsb (bus read_temp_cmd)) (msb (bus read_temp_cmd)))))
                 (SCALE_FACTOR fp))
              (KELVIN_OFFSET fp),
          tempfahrenheit :=
            fl_add fp
              (fl_mul fp (FAHRENHEIT_MULTIPLIER fp)
                 (fl_sub fp
                    (fl_mul fp
                       (fl_of_int fp
                          (uint (rawtemp_of (lsb (bus read_temp_cmd))
                             (msb (bus read_temp_cmd)))))
                       (SCALE_FACTOR fp))
                    (KELVIN_OFFSET fp)))
              (FAHRENHEIT_OFFSET fp)\<rparr>)"
  using assms by (simp add: MLX90614ReadTemp_def Let_def CalculateCrc8_pec_frame)

lemma rawtemp_of_little_endian: "unat (rawtemp_of l m) = unat m * 256 + unat l"
proof -
  let ?hi = "push_bit 8 (ucast m :: c_int)"
  let ?lo = "ucast l :: c_int"
  have disj: "?hi AND ?lo = 0"
    by (rule bit_word_eqI) (auto simp add: bit_simps dest: bit_imp_le_length)
  have lb: "unat l < 256" and mb: "unat m < 256"
    using unsigned_less [of l, where ?'a = nat] unsigned_less [of m, where ?'a = nat]
    by simp_all
  have ul: "unat ?lo = unat l"
    using lb by (simp add: unsigned_ucast_eq take_bit_nat_eq_self)
  have um: "unat (ucast m :: c_int) = unat m"
    using mb by (simp add: unsigned_ucast_eq take_bit_nat_eq_self)
  have uh: "unat ?hi = unat m * 256"
    using mb by (simp add: push_bit_eq_mult unat_word_ariths um)
  have "unat (?hi OR ?lo) = unat (?hi + ?lo)"
    by (simp only: disjunctive_add_eq_or [OF disj])
  also have "\<dots> = unat m * 256 + unat l"
    using lb mb by (simp add: unat_word_ariths uh ul)
  finally have sum: "unat (?hi OR ?lo) = unat m * 256 + unat l" .
  have "unat (rawtemp_of l m) = unat (?hi OR ?lo) mod 2 ^ 16"
    unfolding rawtemp_of_def by (simp add: unsigned_ucast_eq take_bit_eq_mod)
  with sum lb mb show ?thesis by simp
qed

subsection \<open>The conversion in single precision\<close>

text \<open>
  Rounding to single precision leaves the integers below \<open>2^24\<close> as they are, and
  moves any other value of the normal range by at most \<open>2^-24\<close> of its magnitude.
\<close>

lemma round_half_even_int: "round_half_even (of_int k) = k"
  by (simp add: round_half_even_def Let_def)

lemma pow2_nonpos: "k \<le> 0 \<Longrightarrow> pow2 k = 1 / 2 ^ nat (- k)"
  by (cases "k = 0") (simp_all add: pow2_def)

lemma pow2_pos: "0 < pow2 k"
  by (simp add: pow2_def)

lemma round_binary32_int:
  assumes "0 \<le> n" and "n < 2 ^ 24"
  shows "round_binary32 (of_int n) = of_int n"
proof (cases "n = 0")
  case True
  then show ?thesis by (simp add: round_binary32_def)
next
  case False
  with assms have pos: "0 < n" by simp
  then have ex: "exponent_of (of_int n) = bitlen n - 1"
    by (simp add: exponent_of_def)
  from pos have e0: "1 \<le> bitlen n"
    using bitlen_eq_zero_iff [of n] bitlen_nonneg [of n] by linarith
  from assms(2) have e24: "bitlen n \<le> 24"
    by (simp add: bitlen_le_iff_power)
  let ?j = "nat (24 - bitlen n)"
  from e24 have q: "pow2 (bitlen n - 1 - 23) = 1 / 2 ^ ?j"
    using pow2_nonpos [of "bitlen n - 1 - 23"] by (simp add: algebra_simps)
  have "of_int n / (1 / 2 ^ ?j) = (of_int (n * 2 ^ ?j) :: real)"
    by simp
  then have r: "round_half_even (of_int n / (1 / 2 ^ ?j)) = n * 2 ^ ?j"
    by (simp only: round_half_even_int)
  from pos have "round_binary32 (of_int n) =
      of_int (round_half_even (of_int n / pow2 (bitlen n - 1 - 23))) * pow2 (bitlen n - 1 - 23)"
    unfolding round_binary32_def ex Let_def by simp
  also have "\<dots> = of_int (n * 2 ^ ?j) * (1 / 2 ^ ?j)"
    by (simp only: q r)
  also have "\<dots> = of_int n"
    by simp
  finally show ?thesis .
qed

lemma binary32_literals:
  "round_binary32 0.02 = 5368709 / 268435456"
  "round_binary32 273.15 = 8950579 / 32768"
  "round_binary32 1.8 = 7549747 / 4194304"
  "round_binary32 32.0 = 32"
  by code_simp+

lemma round_half_even_err: "\<bar>of_int (round_half_even y) - y\<bar> \<le> 1 / 2"
proof -
  have "of_int \<lfloor>y\<rfloor> \<le> y" and "y < of_int \<lfloor>y\<rfloor> + 1"
    by linarith+
  then show ?thesis
    by (auto simp add: round_half_even_def Let_def)
qed

lemma pow2_powi: "pow2 e = 2 powi e"
  by (simp add: pow2_def power_int_def power_one_over)

lemma pow2_exponent_le:
  assumes "x \<noteq> 0"
  shows "pow2 (exponent_of x) \<le> \<bar>x\<bar>"
proof (cases "1 \<le> \<bar>x\<bar>")
  case True
  let ?n = "\<lfloor>\<bar>x\<bar>\<rfloor>"
  from True have n: "0 < ?n" by linarith
  from bitlen_bounds [OF n] have le: "2 ^ nat (bitlen ?n - 1) \<le> ?n" by simp
  from n have "1 \<le> bitlen ?n"
    using bitlen_eq_zero_iff [of ?n] bitlen_nonneg [of ?n] by linarith
  then have "pow2 (exponent_of x) = 2 ^ nat (bitlen ?n - 1)"
    using True by (simp add: exponent_of_def pow2_def)
  also have "\<dots> = of_int (2 ^ nat (bitlen ?n - 1))" by simp
  also have "\<dots> \<le> of_int ?n" using le by (simp only: of_int_le_iff)
  also have "\<dots> \<le> \<bar>x\<bar>" by linarith
  finally show ?thesis .
next
  case False
  with assms have small: "0 < \<bar>x\<bar>" "\<bar>x\<bar> < 1" by simp_all
  let ?m = "\<lceil>1 / \<bar>x\<bar>\<rceil> - 1"
  from small have "1 < 1 / \<bar>x\<bar>" by simp
  then have m: "0 < ?m" by linarith
  from bitlen_bounds [OF m] have "?m < 2 ^ nat (bitlen ?m)" by simp
  then have "\<lceil>1 / \<bar>x\<bar>\<rceil> \<le> 2 ^ nat (bitlen ?m)" by linarith
  then have "(of_int \<lceil>1 / \<bar>x\<bar>\<rceil> :: real) \<le> of_int (2 ^ nat (bitlen ?m))"
    by (simp only: of_int_le_iff)
  moreover have "1 / \<bar>x\<bar> \<le> of_int \<lceil>1 / \<bar>x\<bar>\<rceil>"
    by (rule le_of_int_ceiling)
  moreover have "(of_int (2 ^ nat (bitlen ?m)) :: real) = 2 ^ nat (bitlen ?m)"
    by simp
  ultimately have up: "1 / \<bar>x\<bar> \<le> 2 ^ nat (bitlen ?m)"
    by linarith
  from m have b1: "1 \<le> bitlen ?m"
    using bitlen_eq_zero_iff [of ?m] bitlen_nonneg [of ?m] by linarith
  then have "pow2 (exponent_of x) = 1 / 2 ^ nat (bitlen ?m)"
    using False by (simp add: exponent_of_def pow2_def)
  also have "\<dots> \<le> \<bar>x\<bar>"
  proof -
    have "1 \<le> \<bar>x\<bar> * 2 ^ nat (bitlen ?m)"
      using up small by (simp add: field_simps)
    then show ?thesis by (simp add: field_simps)
  qed
  finally show ?thesis .
qed

lemma pow2_exponent_gt:
  assumes "x \<noteq> 0"
  shows "\<bar>x\<bar> < pow2 (exponent_of x + 1)"
proof (cases "1 \<le> \<bar>x\<bar>")
  case True
  let ?n = "\<lfloor>\<bar>x\<bar>\<rfloor>"
  from True have n: "0 < ?n" by linarith
  from bitlen_bounds [OF n] have "?n < 2 ^ nat (bitlen ?n)" by simp
  then have "?n + 1 \<le> 2 ^ nat (bitlen ?n)" by linarith
  then have "(of_int (?n + 1) :: real) \<le> of_int (2 ^ nat (bitlen ?n))"
    by (simp only: of_int_le_iff)
  moreover have "\<bar>x\<bar> < of_int (?n + 1)" by linarith
  moreover have "(of_int (2 ^ nat (bitlen ?n)) :: real) = 2 ^ nat (bitlen ?n)" by simp
  ultimately have "\<bar>x\<bar> < 2 ^ nat (bitlen ?n)" by linarith
  moreover have "pow2 (exponent_of x + 1) = 2 ^ nat (bitlen ?n)"
    using True bitlen_nonneg [of ?n] by (simp add: exponent_of_def pow2_def)
  ultimately show ?thesis by simp
next
  case False
  with assms have small: "0 < \<bar>x\<bar>" "\<bar>x\<bar> < 1" by simp_all
  let ?m = "\<lceil>1 / \<bar>x\<bar>\<rceil> - 1"
  from small have "1 < 1 / \<bar>x\<bar>" by simp
  then have m: "0 < ?m" by linarith
  from m have b1: "1 \<le> bitlen ?m"
    using bitlen_eq_zero_iff [of ?m] bitlen_nonneg [of ?m] by linarith
  from bitlen_bounds [OF m] have "2 ^ nat (bitlen ?m - 1) \<le> ?m" by simp
  then have "(of_int (2 ^ nat (bitlen ?m - 1)) :: real) \<le> of_int ?m"
    by (simp only: of_int_le_iff)
  moreover have "of_int ?m < 1 / \<bar>x\<bar>" by linarith
  moreover have "(of_int (2 ^ nat (bitlen ?m - 1)) :: real) = 2 ^ nat (bitlen ?m - 1)" by simp
  ultimately have lo: "2 ^ nat (bitlen ?m - 1) < 1 / \<bar>x\<bar>" by linarith
  have "pow2 (exponent_of x + 1) = 1 / 2 ^ nat (bitlen ?m - 1)"
  proof (cases "bitlen ?m = 1")
    case True
    with False show ?thesis by (simp add: exponent_of_def pow2_def)
  next
    case F: False
    with b1 have "1 < bitlen ?m" by simp
    with False show ?thesis by (simp add: exponent_of_def pow2_def)
  qed
  moreover have "\<bar>x\<bar> < 1 / 2 ^ nat (bitlen ?m - 1)"
  proof -
    have "\<bar>x\<bar> * 2 ^ nat (bitlen ?m - 1) < 1"
      using lo small by (simp add: field_simps)
    then show ?thesis by (simp add: field_simps)
  qed
  ultimately show ?thesis by simp
qed

lemma round_binary32_err: "\<bar>round_binary32 x - x\<bar> \<le> \<bar>x\<bar> / 2 ^ 24"
proof (cases "x = 0")
  case True
  then show ?thesis by (simp add: round_binary32_def)
next
  case False
  let ?q = "pow2 (exponent_of x - 23)"
  have qpos: "0 < ?q" by (rule pow2_pos)
  have "?q = pow2 (exponent_of x) / 2 ^ 23"
    by (simp add: pow2_powi power_int_diff)
  with pow2_exponent_le [OF False] have qle: "?q \<le> \<bar>x\<bar> / 2 ^ 23"
    by (simp add: divide_right_mono)
  have "round_binary32 x - x = (of_int (round_half_even (x / ?q)) - x / ?q) * ?q"
    using False qpos by (simp add: round_binary32_def Let_def field_simps)
  then have "\<bar>round_binary32 x - x\<bar> = \<bar>of_int (round_half_even (x / ?q)) - x / ?q\<bar> * ?q"
    using qpos by (simp add: abs_mult)
  also have "\<dots> \<le> 1 / 2 * ?q"
    using round_half_even_err [of "x / ?q"] qpos by (intro mult_right_mono) simp_all
  also have "\<dots> \<le> \<bar>x\<bar> / 2 ^ 24"
    using qle by simp
  finally show ?thesis .
qed

lemma round_binary32_within:
  "\<bar>x\<bar> \<le> b \<Longrightarrow> \<bar>round_binary32 x - x\<bar> \<le> b / 2 ^ 24"
  using round_binary32_err [of x] by (simp add: field_simps)

lemma abs_boundD: "\<bar>a - b\<bar> \<le> e \<Longrightarrow> b - e \<le> a \<and> a \<le> b + (e::real)"
  by (auto simp add: abs_le_iff)

lemma celsius_binary32_bound:
  fixes raw :: real
  assumes "0 \<le> raw" and "raw \<le> 65535"
  shows "\<bar>round_binary32 (round_binary32 (raw * (5368709 / 268435456)) - 8950579 / 32768)
           - (raw * 0.02 - 273.15)\<bar> \<le> 21 / 100000"
proof -
  let ?p = "raw * (5368709 / 268435456)"
  let ?K = "round_binary32 ?p"
  let ?d = "?K - 8950579 / 32768"
  let ?C = "round_binary32 ?d"
  from assms have p: "0 \<le> ?p" "?p \<le> 1311" by simp_all
  then have "\<bar>?p\<bar> \<le> 1311" by simp
  from round_binary32_within [OF this] have "\<bar>?K - ?p\<bar> \<le> 1311 / 2 ^ 24" .
  from abs_boundD [OF this] have K: "?p - 1311 / 2 ^ 24 \<le> ?K" "?K \<le> ?p + 1311 / 2 ^ 24"
    by simp_all
  with p have "\<bar>?d\<bar> \<le> 1586" by (simp add: abs_le_iff)
  from round_binary32_within [OF this] have "\<bar>?C - ?d\<bar> \<le> 1586 / 2 ^ 24" .
  from abs_boundD [OF this] have C: "?d - 1586 / 2 ^ 24 \<le> ?C" "?C \<le> ?d + 1586 / 2 ^ 24"
    by simp_all
  from assms K C show ?thesis
    unfolding abs_le_iff by (simp; linarith)
qed

lemma fahrenheit_binary32_bound:
  fixes C cex :: real
  assumes "\<bar>C - cex\<bar> \<le> 21 / 100000" and "- 27315 / 100 \<le> cex" and "cex \<le> 103755 / 100"
  shows "\<bar>round_binary32 (round_binary32 (7549747 / 4194304 * C) + 32) - (1.8 * cex + 32)\<bar>
           \<le> 7 / 10000"
proof -
  let ?m = "7549747 / 4194304 * C"
  let ?u = "round_binary32 ?m"
  let ?F = "round_binary32 (?u + 32)"
  from abs_boundD [OF assms(1)] have c: "cex - 21 / 100000 \<le> C" "C \<le> cex + 21 / 100000"
    by simp_all
  with assms(2,3) have "\<bar>?m\<bar> \<le> 1869" by (simp add: abs_le_iff)
  from round_binary32_within [OF this] have "\<bar>?u - ?m\<bar> \<le> 1869 / 2 ^ 24" .
  from abs_boundD [OF this] have u: "?m - 1869 / 2 ^ 24 \<le> ?u" "?u \<le> ?m + 1869 / 2 ^ 24"
    by simp_all
  with c assms(2,3) have "\<bar>?u + 32\<bar> \<le> 1902" by (simp add: abs_le_iff)
  from round_binary32_within [OF this] have "\<bar>?F - (?u + 32)\<bar> \<le> 1902 / 2 ^ 24" .
  from abs_boundD [OF this] have F: "?u + 32 - 1902 / 2 ^ 24 \<le> ?F" "?F \<le> ?u + 32 + 1902 / 2 ^ 24"
    by simp_all
  from c u F assms(2,3) show ?thesis
    unfolding abs_le_iff by (simp; linarith)
qed

lemma round_binary32_nat:
  fixes n :: nat
  assumes "n < 2 ^ 24"
  shows "round_binary32 (real n) = real n"
  using round_binary32_int [of "int n"] assms by simp

lemma binary32_of_rawtemp:
  "round_binary32 (of_int (uint (rawtemp_of l m))) = real (unat m * 256 + unat l)"
proof -
  have lb: "unat l < 256" and mb: "unat m < 256"
    using unsigned_less [of l, where ?'a = nat] unsigned_less [of m, where ?'a = nat]
    by simp_all
  then have "unat m * 256 + unat l < 2 ^ 24"
    by simp
  then have r: "round_binary32 (real (unat m * 256 + unat l)) = real (unat m * 256 + unat l)"
    by (rule round_binary32_nat)
  have "real_of_int (uint (rawtemp_of l m)) = real (unat (rawtemp_of l m))"
    by simp
  then have "real_of_int (uint (rawtemp_of l m)) = real (unat m * 256 + unat l)"
    by (simp only: rawtemp_of_little_endian)
  with r show ?thesis
    by (simp only:)
qed

lemma binary32_zero_steps:
  "round_binary32 (0 * (5368709 / 268435456)) = 0"
  "round_binary32 (0 - 8950579 / 32768) = - 8950579 / 32768"
  "round_binary32 (7549747 / 4194304 * (- 8950579 / 32768)) = - 8055521 / 16384"
  "round_binary32 (- 8055521 / 16384 + 32) = - 7531233 / 16384"
  by code_simp+

lemma binary32_zero_reading:
  "round_binary32 (round_binary32 (0 * round_binary32 0.02) - round_binary32 273.15)
     = - 8950579 / 32768"
  "round_binary32
     (round_binary32 (round_binary32 1.8 * (- 8950579 / 32768)) + round_binary32 32.0)
     = - 7531233 / 16384"
  by (simp_all only: binary32_literals binary32_zero_steps)

lemma MLX90614ReadTemp_binary32_on_match:
  assumes "ret (bus read_temp_cmd) = ESP_OK"
    and "Crc8 [0xB4, 0x07, 0xB5, lsb (bus read_temp_cmd), msb (bus read_temp_cmd)]
          = pec (bus read_temp_cmd)"
  shows "MLX90614ReadTemp binary32 bus stack out =
    Some (RETURN_NUM_MLX90614_READSUCCESSFULLY,
      out\<lparr>tempcelsius :=
            round_binary32
              (round_binary32
                 (real (unat (msb (bus read_temp_cmd)) * 256 + unat (lsb (bus read_temp_cmd)))
                    * round_binary32 0.02)
               - round_binary32 273.15),
          tempfahrenheit :=
            round_binary32
              (round_binary32
                 (round_binary32 1.8 *
                  round_binary32
                    (round_binary32
                       (real (unat (msb (bus read_temp_cmd)) * 256
                                + unat (lsb (bus read_temp_cmd)))
                          * round_binary32 0.02)
                     - round_binary32 273.15))
               + round_binary32 32.0)\<rparr>)"
  unfolding MLX90614ReadTemp_on_match [where bus = bus, OF assms]
  by (simp only: binary32_def SCALE_FACTOR_def KELVIN_OFFSET_def FAHRENHEIT_OFFSET_def
      FAHRENHEIT_MULTIPLIER_def float_ops.simps binary32_of_rawtemp)

lemma completed_transfer_sel:
  "ret (completed_transfer l m p cmd) = ESP_OK"
  "lsb (completed_transfer l m p cmd) = l"
  "msb (completed_transfer l m p cmd) = m"
  "pec (completed_transfer l m p cmd) = p"
  by (simp_all add: completed_transfer_def)

lemma rawtemp_zero: "real (unat (0::uint8_t) * 256 + unat (0::uint8_t)) = 0"
  by simp

text \<open>
  C3 fails on the code.  The outputs are C \<open>float\<close>s.  For the reading \<open>lsb = 0x00\<close>,
  \<open>msb = 0x00\<close> with its matching PEC byte \<open>0x06\<close> the function stores
  \<open>-8950579/32768 = -273.149993896484375\<close> and
  \<open>-7531233/16384 = -459.66998291015625\<close>, which are not \<open>-273.15\<close> and \<open>-459.67\<close>.
\<close>

theorem MLX90614ReadTemp_zero_reading_counterexample:
  "Crc8 [0xB4, 0x07, 0xB5, 0x00, 0x00] = 0x06 \<and>
   MLX90614ReadTemp binary32 (completed_transfer 0x00 0x00 0x06) 0xFF
       \<lparr>tempcelsius = 0, tempfahrenheit = 0\<rparr> =
     Some (RETURN_NUM_MLX90614_READSUCCESSFULLY,
           \<lparr>tempcelsius = - 8950579 / 32768, tempfahrenheit = - 7531233 / 16384\<rparr>) \<and>
   (- 8950579 / 32768 :: real) \<noteq> - 273.15 \<and>
   (- 7531233 / 16384 :: real) \<noteq> - 459.67"
proof -
  have c: "Crc8 [0xB4, 0x07, 0xB5, lsb (completed_transfer 0x00 0x00 0x06 read_temp_cmd),
        msb (completed_transfer 0x00 0x00 0x06 read_temp_cmd)]
      = pec (completed_transfer 0x00 0x00 0x06 read_temp_cmd)"
    by (simp only: completed_transfer_sel Crc8_zero_reading)
  have "MLX90614ReadTemp binary32 (completed_transfer 0x00 0x00 0x06) 0xFF
       \<lparr>tempcelsius = 0, tempfahrenheit = 0\<rparr> =
     Some (RETURN_NUM_MLX90614_READSUCCESSFULLY,
       \<lparr>tempcelsius = 0, tempfahrenheit = 0\<rparr>
         \<lparr>tempcelsius := - 8950579 / 32768, tempfahrenheit := - 7531233 / 16384\<rparr>)"
    unfolding MLX90614ReadTemp_binary32_on_match
      [where bus = "completed_transfer 0x00 0x00 0x06", OF completed_transfer_sel(1) c]
    by (simp only: completed_transfer_sel rawtemp_zero binary32_zero_reading)
  then show ?thesis
    by (simp add: Crc8_zero_reading)
qed

text \<open>
  C3, amended.  For every completed transfer whose PEC byte matches, the function
  returns the read-success code and writes both outputs.  The raw value is
  \<open>msb * 256 + lsb\<close>.  The Celsius output is the raw value times the float nearest
  \<open>0.02\<close>, rounded, minus the float nearest \<open>273.15\<close>, rounded; the Fahrenheit output is
  the float nearest \<open>1.8\<close> times the Celsius output, rounded, plus \<open>32\<close>, rounded.  The
  Celsius output lies within \<open>0.00021\<close> of \<open>raw * 0.02 - 273.15\<close> and the Fahrenheit output
  within \<open>0.0007\<close> of \<open>1.8 * (raw * 0.02 - 273.15) + 32\<close>.  For the reading \<open>lsb = 0x00\<close>,
  \<open>msb = 0x00\<close> the outputs are \<open>-8950579/32768\<close> and \<open>-7531233/16384\<close>.
\<close>

theorem MLX90614ReadTemp_binary32_conversion:
  assumes "ret (bus read_temp_cmd) = ESP_OK"
    and "Crc8 [0xB4, 0x07, 0xB5, lsb (bus read_temp_cmd), msb (bus read_temp_cmd)]
          = pec (bus read_temp_cmd)"
  shows
    "let raw = real (unat (msb (bus read_temp_cmd)) * 256 + unat (lsb (bus read_temp_cmd)));
         celsius =
           round_binary32 (round_binary32 (raw * round_binary32 0.02) - round_binary32 273.15);
         fahrenheit =
           round_binary32 (round_binary32 (round_binary32 1.8 * celsius) + round_binary32 32.0)
     in MLX90614ReadTemp binary32 bus stack out =
          Some (RETURN_NUM_MLX90614_READSUCCESSFULLY,
                out\<lparr>tempcelsius := celsius, tempfahrenheit := fahrenheit\<rparr>) \<and>
        \<bar>celsius - (raw * 0.02 - 273.15)\<bar> \<le> 21 / 100000 \<and>
        \<bar>fahrenheit - (1.8 * (raw * 0.02 - 273.15) + 32)\<bar> \<le> 7 / 10000 \<and>
        (lsb (bus read_temp_cmd) = 0x00 \<and> msb (bus read_temp_cmd) = 0x00 \<longrightarrow>
           celsius = - 8950579 / 32768 \<and> fahrenheit = - 7531233 / 16384)"
proof -
  let ?l = "lsb (bus read_temp_cmd)" and ?m = "msb (bus read_temp_cmd)"
  let ?raw = "real (unat ?m * 256 + unat ?l)"
  let ?C = "round_binary32 (round_binary32 (?raw * round_binary32 0.02) - round_binary32 273.15)"
  let ?F = "round_binary32 (round_binary32 (round_binary32 1.8 * ?C) + round_binary32 32.0)"
  have "unat ?l < 256" and "unat ?m < 256"
    using unsigned_less [of ?l, where ?'a = nat] unsigned_less [of ?m, where ?'a = nat]
    by simp_all
  then have "unat ?m * 256 + unat ?l \<le> 65535"
    by simp
  then have "?raw \<le> real 65535"
    by (rule of_nat_mono)
  then have raw: "0 \<le> ?raw" "?raw \<le> 65535"
    by (simp_all only: of_nat_numeral of_nat_0_le_iff)
  have run: "MLX90614ReadTemp binary32 bus stack out =
      Some (RETURN_NUM_MLX90614_READSUCCESSFULLY,
            out\<lparr>tempcelsius := ?C, tempfahrenheit := ?F\<rparr>)"
    by (rule MLX90614ReadTemp_binary32_on_match [where bus = bus, OF assms])
  have cb: "\<bar>?C - (?raw * 0.02 - 273.15)\<bar> \<le> 21 / 100000"
    unfolding binary32_literals by (rule celsius_binary32_bound [OF raw])
  from raw have ex: "- 27315 / 100 \<le> ?raw * 0.02 - 273.15" "?raw * 0.02 - 273.15 \<le> 103755 / 100"
    by simp_all
  have fb: "\<bar>?F - (1.8 * (?raw * 0.02 - 273.15) + 32)\<bar> \<le> 7 / 10000"
    unfolding binary32_literals (3,4)
    by (rule fahrenheit_binary32_bound [OF cb ex])
  have zero: "?l = 0x00 \<and> ?m = 0x00 \<longrightarrow> ?C = - 8950579 / 32768 \<and> ?F = - 7531233 / 16384"
  proof (intro impI)
    assume z: "?l = 0x00 \<and> ?m = 0x00"
    then have r0: "?raw = 0" by simp
    have c: "?C = - 8950579 / 32768"
      unfolding r0 by (rule binary32_zero_reading(1))
    have "?F = - 7531233 / 16384"
      unfolding c by (rule binary32_zero_reading(2))
    with c show "?C = - 8950579 / 32768 \<and> ?F = - 7531233 / 16384" by simp
  qed
  from run cb fb zero show ?thesis
    unfolding Let_def by (intro conjI)
qed

theorem MLX90614ReadTemp_binary32_conversion_witness:
  "ret (completed_transfer 0x00 0x00 0x06 read_temp_cmd) = ESP_OK \<and>
   Crc8 [0xB4, 0x07, 0xB5, lsb (completed_transfer 0x00 0x00 0x06 read_temp_cmd),
         msb (completed_transfer 0x00 0x00 0x06 read_temp_cmd)]
     = pec (completed_transfer 0x00 0x00 0x06 read_temp_cmd) \<and>
   MLX90614ReadTemp binary32 (completed_transfer 0x00 0x00 0x06) 0xFF
       \<lparr>tempcelsius = 21.5, tempfahrenheit = 70.7\<rparr> =
     Some (RETURN_NUM_MLX90614_READSUCCESSFULLY,
           \<lparr>tempcelsius = - 8950579 / 32768, tempfahrenheit = - 7531233 / 16384\<rparr>) \<and>
   \<bar>- 8950579 / 32768 - (0 * 0.02 - 273.15 :: real)\<bar> \<le> 21 / 100000 \<and>
   \<bar>- 7531233 / 16384 - (1.8 * (0 * 0.02 - 273.15) + 32 :: real)\<bar> \<le> 7 / 10000"
proof -
  have r: "ret (completed_transfer 0x00 0x00 0x06 read_temp_cmd) = ESP_OK"
    by (rule completed_transfer_sel(1))
  have c: "Crc8 [0xB4, 0x07, 0xB5, lsb (completed_transfer 0x00 0x00 0x06 read_temp_cmd),
        msb (completed_transfer 0x00 0x00 0x06 read_temp_cmd)]
      = pec (completed_transfer 0x00 0x00 0x06 read_temp_cmd)"
    by (simp only: completed_transfer_sel Crc8_zero_reading)
  have "MLX90614ReadTemp binary32 (completed_transfer 0x00 0x00 0x06) 0xFF
       \<lparr>tempcelsius = 21.5, tempfahrenheit = 70.7\<rparr> =
     Some (RETURN_NUM_MLX90614_READSUCCESSFULLY,
       \<lparr>tempcelsius = 21.5, tempfahrenheit = 70.7\<rparr>
         \<lparr>tempcelsius := - 8950579 / 32768, tempfahrenheit := - 7531233 / 16384\<rparr>)"
    using MLX90614ReadTemp_binary32_conversion
      [where bus = "completed_transfer 0x00 0x00 0x06", OF r c, of "0xFF"
         "\<lparr>tempcelsius = 21.5, tempfahrenheit = 70.7\<rparr>"]
    by (simp only: Let_def completed_transfer_sel rawtemp_zero binary32_zero_reading)
  with r c show ?thesis
    by simp
qed

section \<open>The file operations\<close>

text \<open>
  When each open succeeds, and what each operation does to the state.
\<close>

lemma fopen_r_None: "(fopen path ''r'' s = None) = (\<not> mounted s \<or> files s path = None)"
  by (auto simp add: fopen_def split: option.splits)

lemma fopen_a_None: "(fopen path ''a'' s = None) = (\<not> mounted s \<or> \<not> writable s path)"
  by (auto simp add: fopen_def)

lemma fopen_w_None: "(fopen path ''w'' s = None) = (\<not> mounted s \<or> \<not> writable s path)"
  by (auto simp add: fopen_def)

lemma FileExists_eq: "FileExists path s = (mounted s \<and> files s path \<noteq> None, s)"
  by (auto simp add: FileExists_def fopen_def fclose_def split: option.splits)

lemma CreateFile_eq:
  "CreateFile path s =
     (if mounted s \<and> writable s path
      then (True, s\<lparr>files := (files s)(path \<mapsto> []), trace := trace s @ [Fopen path ''w'']\<rparr>)
      else (False, s))"
  by (simp add: CreateFile_def fopen_def fclose_def)

lemma AppendFile_eq:
  "AppendFile path data s =
     (if mounted s \<and> writable s path
      then (RETURN_NUM_SDCARD_APPENDSUCCESSFULLY,
            s\<lparr>files := (files s)(path \<mapsto>
                (case files s path of None \<Rightarrow> [] | Some content \<Rightarrow> content) @
                take (room s) (data @ [newline])),
              room := room s - length (take (room s) (data @ [newline])),
              trace := trace s @ [Fopen path ''a'', Fprintf path (data @ [newline])]\<rparr>)
      else (RETURN_NUM_SDCARD_APPENDFAIL, s))"
  by (simp add: AppendFile_def fopen_def fprintf_def fclose_def)

lemma WriteFile_eq:
  "WriteFile path s =
     (if mounted s \<and> writable s path
      then (RETURN_NUM_SDCARD_WRITESUCCESSFULL,
            s\<lparr>files := (files s)(path \<mapsto>
                take (room s) (''sectr!'' @ [newline] @ ''CONSOLE.'' @ [newline])),
              room := room s -
                length (take (room s) (''sectr!'' @ [newline] @ ''CONSOLE.'' @ [newline])),
              trace := trace s @
                [Fopen path ''w'', Fprintf path (''sectr!'' @ [newline]),
                 Fprintf path (''CONSOLE.'' @ [newline])]\<rparr>)
      else (RETURN_NUM_SDCARD_WRITEFAIL, s))"
  by (simp add: WriteFile_def fopen_def fprintf_def fclose_def)

lemma LogToSDCard_eq:
  "LogToSDCard tag message s =
     (if mounted s \<and>
         (files s (MOUNT_POINT @ ''/SDCARD.txt'') \<noteq> None \<or>
          writable s (MOUNT_POINT @ ''/SDCARD.txt''))
      then AppendFile (MOUNT_POINT @ ''/SDCARD.txt'') (tag @ '': '' @ message)
             (if files s (MOUNT_POINT @ ''/SDCARD.txt'') = None
              then snd (CreateFile (MOUNT_POINT @ ''/SDCARD.txt'') s) else s)
      else (RETURN_NUM_SDCARD_APPENDFAIL, s))"
  apply (simp add: LogToSDCard_def Let_def FileExists_eq CreateFile_eq AppendFile_def
      split: prod.splits)
  apply (auto simp add: fopen_def)
  done





subsection \<open>\<open>AppendFile\<close>\<close>

text \<open>
  C4 fails on the code.  On the mounted empty card the file \<open>/sdcard/MLX90614.txt\<close>
  was never created, and \<open>AppendFile\<close> returns \<open>RETURN_NUM_SDCARD_APPENDSUCCESSFULLY\<close>,
  not \<open>RETURN_NUM_SDCARD_APPENDFAIL\<close>; afterwards the file exists and holds the line.
\<close>

theorem AppendFile_missing_file_counterexample:
  "files card_mounted ''/sdcard/MLX90614.txt'' = None \<and>
   fst (AppendFile ''/sdcard/MLX90614.txt'' ''celsius=25.00'' card_mounted) =
     RETURN_NUM_SDCARD_APPENDSUCCESSFULLY \<and>
   fst (AppendFile ''/sdcard/MLX90614.txt'' ''celsius=25.00'' card_mounted) \<noteq>
     RETURN_NUM_SDCARD_APPENDFAIL \<and>
   files (snd (AppendFile ''/sdcard/MLX90614.txt'' ''celsius=25.00'' card_mounted))
     ''/sdcard/MLX90614.txt'' = Some (''celsius=25.00'' @ [newline])"
  by (simp add: AppendFile_eq card_mounted_def power_on_def
      RETURN_NUM_SDCARD_APPENDSUCCESSFULLY_def RETURN_NUM_SDCARD_APPENDFAIL_def)

text \<open>
  C4, amended.  For every path whose file does not exist: when the append-mode open
  succeeds, the file exists after \<open>AppendFile\<close>, and when the card has room for \<open>Data\<close>
  and the newline, \<open>AppendFile\<close> returns the append-success code and the file holds
  exactly \<open>Data\<close> followed by a newline; when the open fails, it returns the
  append-failure code and the state, so also the set of files, is unchanged.
\<close>

theorem AppendFile_creates_missing_file:
  assumes "files s StringPath = None"
  shows "(fopen StringPath ''a'' s \<noteq> None \<longrightarrow>
           files (snd (AppendFile StringPath Data s)) StringPath \<noteq> None \<and>
           (length (Data @ [newline]) \<le> room s \<longrightarrow>
              fst (AppendFile StringPath Data s) = RETURN_NUM_SDCARD_APPENDSUCCESSFULLY \<and>
              files (snd (AppendFile StringPath Data s)) StringPath =
                Some (Data @ [newline]))) \<and>
         (fopen StringPath ''a'' s = None \<longrightarrow>
           AppendFile StringPath Data s = (RETURN_NUM_SDCARD_APPENDFAIL, s))"
  using assms by (simp add: AppendFile_eq fopen_a_None)

theorem AppendFile_creates_missing_file_witness:
  "files card_mounted ''/sdcard/MLX90614.txt'' = None \<and>
   fopen ''/sdcard/MLX90614.txt'' ''a'' card_mounted \<noteq> None \<and>
   length (''celsius=25.00'' @ [newline]) \<le> room card_mounted \<and>
   files (snd (AppendFile ''/sdcard/MLX90614.txt'' ''celsius=25.00'' card_mounted))
     ''/sdcard/MLX90614.txt'' \<noteq> None \<and>
   fst (AppendFile ''/sdcard/MLX90614.txt'' ''celsius=25.00'' card_mounted) =
     RETURN_NUM_SDCARD_APPENDSUCCESSFULLY \<and>
   files (snd (AppendFile ''/sdcard/MLX90614.txt'' ''celsius=25.00'' card_mounted))
     ''/sdcard/MLX90614.txt'' = Some (''celsius=25.00'' @ [newline]) \<and>
   files power_on ''/sdcard/MLX90614.txt'' = None \<and>
   fopen ''/sdcard/MLX90614.txt'' ''a'' power_on = None \<and>
   AppendFile ''/sdcard/MLX90614.txt'' ''celsius=25.00'' power_on =
     (RETURN_NUM_SDCARD_APPENDFAIL, power_on)"
proof -
  have a: "files card_mounted ''/sdcard/MLX90614.txt'' = None"
    by (simp add: card_mounted_def power_on_def)
  have b: "files power_on ''/sdcard/MLX90614.txt'' = None"
    by (simp add: power_on_def)
  have c: "fopen ''/sdcard/MLX90614.txt'' ''a'' card_mounted \<noteq> None"
    by (simp add: fopen_a_None card_mounted_def power_on_def)
  have d: "fopen ''/sdcard/MLX90614.txt'' ''a'' power_on = None"
    by (simp add: fopen_a_None power_on_def)
  have e: "length (''celsius=25.00'' @ [newline]) \<le> room card_mounted"
    by (simp add: card_mounted_def power_on_def)
  note t1 = AppendFile_creates_missing_file
    [OF a, of "''celsius=25.00''", THEN conjunct1, rule_format, OF c]
  note t2 = t1 [THEN conjunct2, rule_format, OF e]
  note t3 = AppendFile_creates_missing_file
    [OF b, of "''celsius=25.00''", THEN conjunct2, rule_format, OF d]
  from a b c d e t1 t2 t3 show ?thesis
    by blast
qed

subsection \<open>\<open>WriteFile\<close> and \<open>ReadFile\<close>\<close>

lemma fgets_chars_line:
  "newline \<notin> set l \<Longrightarrow> length l < n \<Longrightarrow>
   fgets_chars n (l @ newline # rest) = (l @ [newline], rest)"
proof (induction l arbitrary: n)
  case Nil
  then obtain k where "n = Suc k" by (cases n) auto
  then show ?case by simp
next
  case (Cons c l)
  then obtain k where n: "n = Suc k" by (cases n) auto
  with Cons.prems have "newline \<notin> set l" "length l < k" "c \<noteq> newline" by auto
  with Cons.IH [of k] n show ?case by simp
qed

lemma fgets_line:
  "newline \<notin> set l \<Longrightarrow> length l < 127 \<Longrightarrow> f_unread file = l @ newline # rest \<Longrightarrow>
   fgets 128 file = Some (l @ [newline], file\<lparr>f_unread := rest\<rparr>)"
  using fgets_chars_line [of l 127 rest] by (simp add: fgets_def)

lemma fgets_eof: "f_unread file = [] \<Longrightarrow> fgets n file = None"
  by (simp add: fgets_def)

lemma ReadFile_loop_two_lines:
  assumes "f_unread file = ''sectr!'' @ [newline] @ ''CONSOLE.'' @ [newline]"
  shows "ReadFile_loop file s =
    printf (''CONSOLE.'' @ [newline]) (printf (''sectr!'' @ [newline]) s)"
proof -
  let ?f1 = "file\<lparr>f_unread := ''CONSOLE.'' @ [newline]\<rparr>"
  let ?f2 = "?f1\<lparr>f_unread := []\<rparr>"
  have g1: "fgets 128 file = Some (''sectr!'' @ [newline], ?f1)"
    using fgets_line [of "''sectr!''" "file" "''CONSOLE.'' @ [newline]"] assms
    by (simp add: newline_def)
  have g2: "fgets 128 ?f1 = Some (''CONSOLE.'' @ [newline], ?f2)"
    using fgets_line [of "''CONSOLE.''" ?f1 "[]"]
    by (simp add: newline_def)
  have g3: "fgets 128 ?f2 = None"
    by (rule fgets_eof) simp
  have t1: "takeWhile (\<lambda>c. c \<noteq> NUL) (''sectr!'' @ [newline]) = ''sectr!'' @ [newline]"
    by (simp add: NUL_def newline_def)
  have t2: "takeWhile (\<lambda>c. c \<noteq> NUL) (''CONSOLE.'' @ [newline]) = ''CONSOLE.'' @ [newline]"
    by (simp add: NUL_def newline_def)
  have "ReadFile_loop file s = ReadFile_loop ?f1 (printf (''sectr!'' @ [newline]) s)"
    by (subst ReadFile_loop.simps) (simp only: g1 t1 option.case prod.case)
  also have "\<dots> = ReadFile_loop ?f2
      (printf (''CONSOLE.'' @ [newline]) (printf (''sectr!'' @ [newline]) s))"
    by (subst ReadFile_loop.simps) (simp only: g2 t2 option.case prod.case)
  also have "\<dots> = printf (''CONSOLE.'' @ [newline]) (printf (''sectr!'' @ [newline]) s)"
    by (subst ReadFile_loop.simps) (simp only: g3 option.case)
  finally show ?thesis .
qed

text \<open>
  C5 fails on the code.  \<open>WriteFile\<close> takes a path and no content: after it succeeds
  on the mounted empty card the file does not hold \<open>X\<close>, and \<open>ReadFile\<close> prints the two
  lines \<open>sectr!\<close> and \<open>CONSOLE.\<close>, not the one line \<open>X\<close>.
\<close>

theorem WriteFile_round_trip_counterexample:
  "fst (WriteFile ''/sdcard/MLX90614.txt'' card_mounted) = RETURN_NUM_SDCARD_WRITESUCCESSFULL \<and>
   files (snd (WriteFile ''/sdcard/MLX90614.txt'' card_mounted)) ''/sdcard/MLX90614.txt'' \<noteq>
     Some ''X'' \<and>
   printed (trace (snd (ReadFile ''/sdcard/MLX90614.txt''
       (snd (WriteFile ''/sdcard/MLX90614.txt'' card_mounted))))) =
     [''sectr!'' @ [newline], ''CONSOLE.'' @ [newline]] \<and>
   printed (trace (snd (ReadFile ''/sdcard/MLX90614.txt''
       (snd (WriteFile ''/sdcard/MLX90614.txt'' card_mounted))))) \<noteq> [''X'']"
  by code_simp

text \<open>
  C5, amended.  For every path, when \<open>WriteFile\<close> returns the write-success code and
  the card has room for the sixteen fixed bytes \<open>"sectr!\n" "CONSOLE.\n"\<close>, the file
  holds exactly these bytes in place of whatever it held, and apart from the room used
  and the record of the open and the two writes nothing else has changed; a \<open>ReadFile\<close>
  of the same path right after it returns the read-success code and prints exactly
  these two lines, in this order.
\<close>

theorem WriteFile_fixed_content_round_trip:
  assumes "fst (WriteFile StringPath s) = RETURN_NUM_SDCARD_WRITESUCCESSFULL"
    and "length (''sectr!'' @ [newline] @ ''CONSOLE.'' @ [newline]) \<le> room s"
  shows "snd (WriteFile StringPath s) =
           s\<lparr>files := (files s)(StringPath \<mapsto>
               ''sectr!'' @ [newline] @ ''CONSOLE.'' @ [newline]),
             room := room s - length (''sectr!'' @ [newline] @ ''CONSOLE.'' @ [newline]),
             trace := trace s @
               [Fopen StringPath ''w'', Fprintf StringPath (''sectr!'' @ [newline]),
                Fprintf StringPath (''CONSOLE.'' @ [newline])]\<rparr> \<and>
         ReadFile StringPath (snd (WriteFile StringPath s)) =
           (RETURN_NUM_SDCARD_READSUCCESSFULL,
            printf (''CONSOLE.'' @ [newline])
              (printf (''sectr!'' @ [newline]) (snd (WriteFile StringPath s))))"
proof -
  from assms(1) have ok: "mounted s \<and> writable s StringPath"
    by (simp add: WriteFile_eq RETURN_NUM_SDCARD_WRITESUCCESSFULL_def
        RETURN_NUM_SDCARD_WRITEFAIL_def split: if_splits)
  let ?s' = "s\<lparr>files := (files s)(StringPath \<mapsto>
               ''sectr!'' @ [newline] @ ''CONSOLE.'' @ [newline]),
             room := room s - length (''sectr!'' @ [newline] @ ''CONSOLE.'' @ [newline]),
             trace := trace s @
               [Fopen StringPath ''w'', Fprintf StringPath (''sectr!'' @ [newline]),
                Fprintf StringPath (''CONSOLE.'' @ [newline])]\<rparr>"
  from ok assms(2) have w: "snd (WriteFile StringPath s) = ?s'"
    by (simp add: WriteFile_eq)
  from ok have op: "fopen StringPath ''r'' ?s' =
      Some (\<lparr>f_path = StringPath, f_mode = ''r'',
              f_unread = ''sectr!'' @ [newline] @ ''CONSOLE.'' @ [newline],
              f_pending = []\<rparr>, ?s')"
    by (simp add: fopen_def)
  have lp: "ReadFile_loop \<lparr>f_path = StringPath, f_mode = ''r'',
              f_unread = ''sectr!'' @ [newline] @ ''CONSOLE.'' @ [newline],
              f_pending = []\<rparr> ?s' =
      printf (''CONSOLE.'' @ [newline]) (printf (''sectr!'' @ [newline]) ?s')"
    by (rule ReadFile_loop_two_lines) simp
  have cl: "fclose \<lparr>f_path = StringPath, f_mode = ''r'',
              f_unread = ''sectr!'' @ [newline] @ ''CONSOLE.'' @ [newline],
              f_pending = []\<rparr> t = (0, t)" for t
    by (simp add: fclose_def)
  have "ReadFile StringPath ?s' =
      (RETURN_NUM_SDCARD_READSUCCESSFULL,
       printf (''CONSOLE.'' @ [newline]) (printf (''sectr!'' @ [newline]) ?s'))"
    unfolding ReadFile_def op
    by (simp only: option.case prod.case lp cl snd_conv)
  with w show ?thesis by (simp only: simp_thms)
qed

theorem WriteFile_fixed_content_round_trip_witness:
  "fst (WriteFile ''/sdcard/MLX90614.txt'' card_mounted) = RETURN_NUM_SDCARD_WRITESUCCESSFULL \<and>
   length (''sectr!'' @ [newline] @ ''CONSOLE.'' @ [newline]) \<le> room card_mounted \<and>
   files (snd (WriteFile ''/sdcard/MLX90614.txt'' card_mounted)) ''/sdcard/MLX90614.txt'' =
     Some (''sectr!'' @ [newline] @ ''CONSOLE.'' @ [newline]) \<and>
   fst (ReadFile ''/sdcard/MLX90614.txt'' (snd (WriteFile ''/sdcard/MLX90614.txt'' card_mounted))) =
     RETURN_NUM_SDCARD_READSUCCESSFULL \<and>
   printed (trace (snd (ReadFile ''/sdcard/MLX90614.txt''
       (snd (WriteFile ''/sdcard/MLX90614.txt'' card_mounted))))) =
     [''sectr!'' @ [newline], ''CONSOLE.'' @ [newline]]"
proof -
  let ?w = "snd (WriteFile ''/sdcard/MLX90614.txt'' card_mounted)"
  let ?fixed = "''sectr!'' @ [newline] @ ''CONSOLE.'' @ [newline]"
  have ok: "fst (WriteFile ''/sdcard/MLX90614.txt'' card_mounted) =
      RETURN_NUM_SDCARD_WRITESUCCESSFULL"
    by (simp add: WriteFile_eq card_mounted_def power_on_def)
  have rm: "length ?fixed \<le> room card_mounted"
    by (simp add: card_mounted_def power_on_def)
  note rt = WriteFile_fixed_content_round_trip [OF ok rm]
  have w: "?w = card_mounted\<lparr>files := (files card_mounted)(''/sdcard/MLX90614.txt'' \<mapsto> ?fixed),
      room := room card_mounted - length ?fixed,
      trace := trace card_mounted @
        [Fopen ''/sdcard/MLX90614.txt'' ''w'',
         Fprintf ''/sdcard/MLX90614.txt'' (''sectr!'' @ [newline]),
         Fprintf ''/sdcard/MLX90614.txt'' (''CONSOLE.'' @ [newline])]\<rparr>"
    using rt by (rule conjunct1)
  have r: "ReadFile ''/sdcard/MLX90614.txt'' ?w =
      (RETURN_NUM_SDCARD_READSUCCESSFULL,
       printf (''CONSOLE.'' @ [newline]) (printf (''sectr!'' @ [newline]) ?w))"
    using rt by (rule conjunct2)
  have tw: "printed (trace ?w) = []"
    by (simp only: w) (simp add: card_mounted_def power_on_def)
  have fw: "files ?w ''/sdcard/MLX90614.txt'' = Some ?fixed"
    by (simp only: w) simp
  have fr: "fst (ReadFile ''/sdcard/MLX90614.txt'' ?w) = RETURN_NUM_SDCARD_READSUCCESSFULL"
    by (simp only: r fst_conv)
  have pa: "printed (evs @ [Printf a, Printf b]) = printed evs @ [a, b]" for evs a b
    by (induction evs rule: printed.induct) simp_all
  have tr: "printed (trace (snd (ReadFile ''/sdcard/MLX90614.txt'' ?w))) =
      [''sectr!'' @ [newline], ''CONSOLE.'' @ [newline]]"
    by (simp only: r snd_conv) (simp add: printf_def pa tw)
  from ok rm fw fr tr show ?thesis by (intro conjI)
qed

subsection \<open>\<open>FileExists\<close>\<close>

text \<open>
  C7.  For every path and state, \<open>FileExists\<close> returns the state it was given; asked
  again right away it gives the same answer; and its answer is \<open>False\<close> exactly when
  the read-only open of the path fails.
\<close>

theorem FileExists_side_effect_free_probe:
  "snd (FileExists StringPath s) = s \<and>
   fst (FileExists StringPath (snd (FileExists StringPath s))) = fst (FileExists StringPath s) \<and>
   (fst (FileExists StringPath s) = False) = (fopen StringPath ''r'' s = None)"
  by (simp add: FileExists_eq fopen_r_None)

subsection \<open>\<open>LogToSDCard\<close>\<close>

text \<open>
  C8 fails on the code.  On a mounted card with no room left the log file is absent,
  creating it and opening it for appending both succeed, and \<open>LogToSDCard\<close> returns the
  append-success code; but the line is lost when the stream is closed, a failure the
  code does not look at, and the file is left empty.
\<close>

theorem LogToSDCard_absent_log_counterexample:
  "\<not> fst (FileExists (MOUNT_POINT @ ''/SDCARD.txt'') card_full) \<and>
   fst (CreateFile (MOUNT_POINT @ ''/SDCARD.txt'') card_full) \<and>
   fopen (MOUNT_POINT @ ''/SDCARD.txt'') ''a''
     (snd (CreateFile (MOUNT_POINT @ ''/SDCARD.txt'') card_full)) \<noteq> None \<and>
   fst (LogToSDCard ''SD_CARD'' ''Initializing SD card...'' card_full) =
     RETURN_NUM_SDCARD_APPENDSUCCESSFULLY \<and>
   files (snd (LogToSDCard ''SD_CARD'' ''Initializing SD card...'' card_full))
     (MOUNT_POINT @ ''/SDCARD.txt'') = Some [] \<and>
   files (snd (LogToSDCard ''SD_CARD'' ''Initializing SD card...'' card_full))
     (MOUNT_POINT @ ''/SDCARD.txt'') \<noteq>
     Some (''SD_CARD'' @ '': '' @ ''Initializing SD card...'' @ [newline])"
  by (simp add: LogToSDCard_eq AppendFile_eq CreateFile_eq FileExists_eq fopen_a_None
      card_full_def card_mounted_def power_on_def)

text \<open>
  C8, amended.  For every tag and message: when \<open>MOUNT_POINT/SDCARD.txt\<close> does not exist
  (\<open>FileExists\<close> answers \<open>False\<close>) and creating it and opening it for appending both
  succeed, \<open>LogToSDCard\<close> returns the append-success code; what it does to the card is
  the truncating open of \<open>CreateFile\<close>, then the append-mode open, then the write of
  \<open>tag: message\<close> and a newline to that stream; and when the card has room for the
  line, the file then holds exactly the line followed by a newline.
\<close>

theorem LogToSDCard_creates_absent_log:
  assumes "\<not> fst (FileExists (MOUNT_POINT @ ''/SDCARD.txt'') s)"
    and "fst (CreateFile (MOUNT_POINT @ ''/SDCARD.txt'') s)"
    and "fopen (MOUNT_POINT @ ''/SDCARD.txt'') ''a''
           (snd (CreateFile (MOUNT_POINT @ ''/SDCARD.txt'') s)) \<noteq> None"
  shows "fst (LogToSDCard tag message s) = RETURN_NUM_SDCARD_APPENDSUCCESSFULLY \<and>
         trace (snd (LogToSDCard tag message s)) = trace s @
           [Fopen (MOUNT_POINT @ ''/SDCARD.txt'') ''w'',
            Fopen (MOUNT_POINT @ ''/SDCARD.txt'') ''a'',
            Fprintf (MOUNT_POINT @ ''/SDCARD.txt'') (tag @ '': '' @ message @ [newline])] \<and>
         (length (tag @ '': '' @ message @ [newline]) \<le> room s \<longrightarrow>
            files (snd (LogToSDCard tag message s)) (MOUNT_POINT @ ''/SDCARD.txt'') =
              Some (tag @ '': '' @ message @ [newline]))"
proof -
  let ?p = "MOUNT_POINT @ ''/SDCARD.txt''"
  from assms(2) have mw: "mounted s \<and> writable s ?p"
    by (simp add: CreateFile_eq split: if_splits)
  with assms(1) have absent: "files s ?p = None"
    by (simp add: FileExists_eq)
  from mw absent show ?thesis
    by (simp add: LogToSDCard_eq CreateFile_eq AppendFile_eq)
qed

theorem LogToSDCard_creates_absent_log_witness:
  "\<not> fst (FileExists (MOUNT_POINT @ ''/SDCARD.txt'') card_mounted) \<and>
   fst (CreateFile (MOUNT_POINT @ ''/SDCARD.txt'') card_mounted) \<and>
   fopen (MOUNT_POINT @ ''/SDCARD.txt'') ''a''
     (snd (CreateFile (MOUNT_POINT @ ''/SDCARD.txt'') card_mounted)) \<noteq> None \<and>
   length (''SD_CARD'' @ '': '' @ ''Initializing SD card...'' @ [newline]) \<le> room card_mounted \<and>
   fst (LogToSDCard ''SD_CARD'' ''Initializing SD card...'' card_mounted) =
     RETURN_NUM_SDCARD_APPENDSUCCESSFULLY \<and>
   trace (snd (LogToSDCard ''SD_CARD'' ''Initializing SD card...'' card_mounted)) =
     trace card_mounted @
       [Fopen (MOUNT_POINT @ ''/SDCARD.txt'') ''w'',
        Fopen (MOUNT_POINT @ ''/SDCARD.txt'') ''a'',
        Fprintf (MOUNT_POINT @ ''/SDCARD.txt'')
          (''SD_CARD'' @ '': '' @ ''Initializing SD card...'' @ [newline])] \<and>
   files (snd (LogToSDCard ''SD_CARD'' ''Initializing SD card...'' card_mounted))
     (MOUNT_POINT @ ''/SDCARD.txt'') =
     Some (''SD_CARD'' @ '': '' @ ''Initializing SD card...'' @ [newline])"
proof -
  have a: "\<not> fst (FileExists (MOUNT_POINT @ ''/SDCARD.txt'') card_mounted)"
    by (simp add: FileExists_eq card_mounted_def power_on_def)
  have b: "fst (CreateFile (MOUNT_POINT @ ''/SDCARD.txt'') card_mounted)"
    by (simp add: CreateFile_eq card_mounted_def power_on_def)
  have c: "fopen (MOUNT_POINT @ ''/SDCARD.txt'') ''a''
     (snd (CreateFile (MOUNT_POINT @ ''/SDCARD.txt'') card_mounted)) \<noteq> None"
    by (simp add: fopen_a_None CreateFile_eq card_mounted_def power_on_def)
  have d: "length (''SD_CARD'' @ '': '' @ ''Initializing SD card...'' @ [newline]) \<le>
      room card_mounted"
    by (simp add: card_mounted_def power_on_def)
  note t = LogToSDCard_creates_absent_log
    [OF a b c, of "''SD_CARD''" "''Initializing SD card...''"]
  note t3 = t [THEN conjunct2, THEN conjunct2, rule_format, OF d]
  from a b c d t t3 show ?thesis
    by blast
qed

section \<open>Mounting and unmounting\<close>




text \<open>
  C9.  When the unmount fails, \<open>SdCardUnmount\<close> calls nothing but the failed unmount
  and prints its message: the state is otherwise unchanged, so the bus stays as claimed
  as it was.  When the unmount succeeds, the release of the bus is the call right after
  the successful unmount.  So \<open>spi_bus_free\<close> is never called before, or without, a
  successful unmount.
\<close>

theorem SdCardUnmount_frees_bus_only_after_unmount:
  "(sdcard_unmount_ret pf \<noteq> ESP_OK \<longrightarrow>
      SdCardUnmount pf s =
        s\<lparr>trace := trace s @
            [SdcardUnmount (sdcard_unmount_ret pf), Printf ''SD Card unmount failed.'']\<rparr> \<and>
      spi_claimed (SdCardUnmount pf s) = spi_claimed s) \<and>
   (sdcard_unmount_ret pf = ESP_OK \<longrightarrow>
      trace (SdCardUnmount pf s) = trace s @
        [SdcardUnmount ESP_OK, SpiBusFree (spi_bus_free_ret pf),
         Printf (if spi_bus_free_ret pf = ESP_OK then ''SD Card unmounted successfully.''
                 else ''SPI bus release failed after unmount.'')])"
  by (simp add: SdCardUnmount_def esp_vfs_fat_sdcard_unmount_def spi_bus_free_def printf_def
      Let_def)

theorem SdCardUnmount_frees_bus_only_after_unmount_witness:
  "sdcard_unmount_ret unmount_refused \<noteq> ESP_OK \<and>
   trace (SdCardUnmount unmount_refused card_mounted) =
     [SdcardUnmount 0x107, Printf ''SD Card unmount failed.''] \<and>
   spi_claimed (SdCardUnmount unmount_refused card_mounted) \<and>
   sdcard_unmount_ret platform_ok = ESP_OK \<and>
   trace (SdCardUnmount platform_ok card_mounted) =
     [SdcardUnmount ESP_OK, SpiBusFree ESP_OK, Printf ''SD Card unmounted successfully.'']"
proof -
  have a: "sdcard_unmount_ret unmount_refused \<noteq> ESP_OK"
    by (simp add: unmount_refused_def platform_ok_def ESP_OK_def)
  have b: "sdcard_unmount_ret platform_ok = ESP_OK"
    by (simp add: platform_ok_def)
  note t1 = SdCardUnmount_frees_bus_only_after_unmount
    [of unmount_refused card_mounted, THEN conjunct1, rule_format, OF a]
  note t2 = SdCardUnmount_frees_bus_only_after_unmount
    [of platform_ok card_mounted, THEN conjunct2, rule_format, OF b]
  from t1 have r1: "trace (SdCardUnmount unmount_refused card_mounted) =
      [SdcardUnmount 0x107, Printf ''SD Card unmount failed.'']"
    by (simp add: unmount_refused_def platform_ok_def card_mounted_def power_on_def)
  from t1 have r2: "spi_claimed (SdCardUnmount unmount_refused card_mounted)"
    by (simp add: card_mounted_def power_on_def)
  from t2 have r3: "trace (SdCardUnmount platform_ok card_mounted) =
      [SdcardUnmount ESP_OK, SpiBusFree ESP_OK, Printf ''SD Card unmounted successfully.'']"
    by (simp add: platform_ok_def card_mounted_def power_on_def)
  from a b r1 r2 r3 show ?thesis
    by blast
qed

text \<open>
  C10.  When the bus initialisation fails, \<open>InitSdCard\<close> returns the platform's status
  cut to its low 8 bits.  For the status \<open>0x102\<close> that is 2: the write-success code,
  which is neither of the two codes \<open>{0, 1}\<close> documented for \<open>InitSdCard\<close>.
\<close>

theorem InitSdCard_returns_truncated_bus_error:
  "(spi_bus_initialize_ret pf \<noteq> ESP_OK \<longrightarrow>
      fst (InitSdCard pf s) = ucast (spi_bus_initialize_ret pf)) \<and>
   (spi_bus_initialize_ret pf = 0x102 \<longrightarrow>
      fst (InitSdCard pf s) = RETURN_NUM_SDCARD_WRITESUCCESSFULL \<and>
      fst (InitSdCard pf s) \<notin>
        {RETURN_NUM_SDCARD_MOUNTSUCCESSFULLY, RETURN_NUM_SDCARD_MOUNTFAIL})"
  by (simp add: InitSdCard_def spi_bus_initialize_def Let_def ESP_OK_def
      RETURN_NUM_SDCARD_WRITESUCCESSFULL_def RETURN_NUM_SDCARD_MOUNTSUCCESSFULLY_def
      RETURN_NUM_SDCARD_MOUNTFAIL_def)

theorem InitSdCard_returns_truncated_bus_error_witness:
  "spi_bus_initialize_ret bus_refused \<noteq> ESP_OK \<and>
   spi_bus_initialize_ret bus_refused = 0x102 \<and>
   fst (InitSdCard bus_refused card_mounted) = ucast (0x102 :: esp_err_t) \<and>
   fst (InitSdCard bus_refused card_mounted) = RETURN_NUM_SDCARD_WRITESUCCESSFULL \<and>
   fst (InitSdCard bus_refused card_mounted) \<noteq> RETURN_NUM_SDCARD_MOUNTSUCCESSFULLY \<and>
   fst (InitSdCard bus_refused card_mounted) \<noteq> RETURN_NUM_SDCARD_MOUNTFAIL"
proof -
  have a: "spi_bus_initialize_ret bus_refused \<noteq> ESP_OK"
    by (simp add: bus_refused_def platform_ok_def ESP_OK_def)
  have b: "spi_bus_initialize_ret bus_refused = 0x102"
    by (simp add: bus_refused_def platform_ok_def)
  note t1 = InitSdCard_returns_truncated_bus_error
    [of bus_refused card_mounted, THEN conjunct1, rule_format, OF a]
  note t2 = InitSdCard_returns_truncated_bus_error
    [of bus_refused card_mounted, THEN conjunct2, rule_format, OF b]
  from t1 b have r1: "fst (InitSdCard bus_refused card_mounted) = ucast (0x102 :: esp_err_t)"
    by simp
  from t2 have r2: "fst (InitSdCard bus_refused card_mounted) = RETURN_NUM_SDCARD_WRITESUCCESSFULL"
    by simp
  from t2 have r3: "fst (InitSdCard bus_refused card_mounted) \<noteq> RETURN_NUM_SDCARD_MOUNTSUCCESSFULLY \<and>
      fst (InitSdCard bus_refused card_mounted) \<noteq> RETURN_NUM_SDCARD_MOUNTFAIL"
    by blast
  from a b r1 r2 r3 show ?thesis
    by blast
qed

end
